theory Spec2Isabelle
  imports Main
begin

section \<open>The minigrid state API: data model\<close>

text \<open>
  The embedding follows \<^verbatim>\<open>uncertain_worms/environments/minigrid/api.py\<close>.
  Python integers are \<^typ>\<open>int\<close>. A two-dimensional numpy array is a record of its
  shape and its rows; the shape is kept apart from the rows because an array with no
  rows still has a second extent. Cell codes are only stored and compared, so they are
  integers as well. Every exception of the source is a value \<open>Inl e\<close> of a sum type.
  The one place where numpy computes with numbers, the vector addition of
  \<open>front_pos\<close>, is on 64-bit integers and is modelled with its wrap-around. A
  window too large to allocate is outside the model.
\<close>

datatype ObjectTypes =
  unseen | empty | wall | open_door | closed_door | locked_door
  | key | ball | box | goal | lava | agent

fun code :: "ObjectTypes \<Rightarrow> int" where
  "code unseen = 0"
| "code empty = 1"
| "code wall = 2"
| "code open_door = 4"
| "code closed_door = 5"
| "code locked_door = 6"
| "code key = 7"
| "code ball = 8"
| "code box = 9"
| "code goal = 10"
| "code lava = 11"
| "code agent = 12"

datatype py_error = AssertionError | ValueError | IndexError

record ndarray =
  shape0 :: nat
  shape1 :: nat
  cells :: "int list list"

definition wf_array :: "ndarray \<Rightarrow> bool" where
  "wf_array a \<longleftrightarrow>
     length (cells a) = shape0 a \<and> list_all (\<lambda>r. length r = shape1 a) (cells a)"

definition item :: "ndarray \<Rightarrow> nat \<Rightarrow> nat \<Rightarrow> int" where
  "item a i j = cells a ! i ! j"

record MinigridState =
  grid :: ndarray
  agent_pos :: "int \<times> int"
  agent_dir :: int
  carrying :: "int option"

definition width :: "MinigridState \<Rightarrow> int" where
  "width s = int (shape0 (grid s))"

definition height :: "MinigridState \<Rightarrow> int" where
  "height s = int (shape1 (grid s))"

definition in_grid :: "MinigridState \<Rightarrow> int \<times> int \<Rightarrow> bool" where
  "in_grid s p \<longleftrightarrow> 0 \<le> fst p \<and> fst p < width s \<and> 0 \<le> snd p \<and> snd p < height s"

section \<open>Python and numpy primitives\<close>

text \<open>
  Indexing a sequence of length \<open>n\<close> with an integer: a negative index counts from the
  end, and an index that is still out of range raises \<open>IndexError\<close>.
\<close>

definition py_index :: "nat \<Rightarrow> int \<Rightarrow> py_error + nat" where
  "py_index n i =
     (let j = (if i < 0 then i + int n else i)
      in if 0 \<le> j \<and> j < int n then Inr (nat j) else Inl IndexError)"

text \<open>
  A slice bound on an axis of length \<open>n\<close>: a negative bound counts from the end, and
  the result is clamped into \<open>[0, n]\<close>. The slice \<open>start:stop\<close> selects the indices
  \<open>[lo..<hi]\<close>, none when \<open>hi \<le> lo\<close>.
\<close>

definition slice_bound :: "nat \<Rightarrow> int \<Rightarrow> nat" where
  "slice_bound n i = nat (if i < 0 then max 0 (i + int n) else min i (int n))"

definition slice_indices :: "nat \<Rightarrow> int \<times> int \<Rightarrow> nat \<times> nat" where
  "slice_indices n sl = (slice_bound n (fst sl), slice_bound n (snd sl))"

text \<open>\<^verbatim>\<open>np.full((n, m), c)\<close>: a negative extent raises \<open>ValueError\<close>.\<close>

definition np_full :: "int \<Rightarrow> int \<Rightarrow> int \<Rightarrow> py_error + ndarray" where
  "np_full n m c =
     (if n < 0 \<or> m < 0 then Inl ValueError
      else Inr \<lparr>shape0 = nat n, shape1 = nat m,
                cells = replicate (nat n) (replicate (nat m) c)\<rparr>)"

text \<open>\<^verbatim>\<open>a[r0:r1, c0:c1]\<close> read: never raises.\<close>

definition getitem_slice :: "ndarray \<Rightarrow> int \<times> int \<Rightarrow> int \<times> int \<Rightarrow> ndarray" where
  "getitem_slice a rs cs =
     (let (r0, r1) = slice_indices (shape0 a) rs;
          (c0, c1) = slice_indices (shape1 a) cs
      in \<lparr>shape0 = r1 - r0, shape1 = c1 - c0,
          cells = map (\<lambda>i. map (\<lambda>j. item a i j) [c0..<c1]) [r0..<r1]\<rparr>)"

text \<open>
  \<^verbatim>\<open>a[r0:r1, c0:c1] = src\<close>: the source is broadcast to the shape of the selected
  region, which needs each of its extents to equal the region's or to be one;
  otherwise numpy raises \<open>ValueError\<close> and writes nothing.
\<close>

definition setitem_slice ::
  "ndarray \<Rightarrow> int \<times> int \<Rightarrow> int \<times> int \<Rightarrow> ndarray \<Rightarrow> py_error + ndarray" where
  "setitem_slice a rs cs src =
     (let (r0, r1) = slice_indices (shape0 a) rs;
          (c0, c1) = slice_indices (shape1 a) cs
      in if (shape0 src = r1 - r0 \<or> shape0 src = 1) \<and>
            (shape1 src = c1 - c0 \<or> shape1 src = 1)
         then Inr (a\<lparr>cells :=
                map (\<lambda>i. map (\<lambda>j.
                       if r0 \<le> i \<and> i < r1 \<and> c0 \<le> j \<and> j < c1
                       then item src (if shape0 src = 1 then 0 else i - r0)
                                     (if shape1 src = 1 then 0 else j - c0)
                       else item a i j) [0..<shape1 a]) [0..<shape0 a]\<rparr>)
         else Inl ValueError)"

text \<open>\<^verbatim>\<open>a[i, j] = v\<close> with integer indices.\<close>

definition setitem :: "ndarray \<Rightarrow> int \<times> int \<Rightarrow> int \<Rightarrow> py_error + ndarray" where
  "setitem a ij v =
     (case py_index (shape0 a) (fst ij) of
        Inl e \<Rightarrow> Inl e
      | Inr i \<Rightarrow>
          (case py_index (shape1 a) (snd ij) of
             Inl e \<Rightarrow> Inl e
           | Inr j \<Rightarrow> Inr (a\<lparr>cells := (cells a)[i := (cells a ! i)[j := v]]\<rparr>)))"

text \<open>
  \<^verbatim>\<open>a.T\<close>, \<^verbatim>\<open>np.flip(a, 1)\<close> and \<^verbatim>\<open>np.rot90(a, k=1)\<close>, which numpy
  computes as the transpose of the array flipped along its second axis.
\<close>

definition nd_T :: "ndarray \<Rightarrow> ndarray" where
  "nd_T a = \<lparr>shape0 = shape1 a, shape1 = shape0 a,
            cells = map (\<lambda>j. map (\<lambda>i. item a i j) [0..<shape0 a]) [0..<shape1 a]\<rparr>"

definition flip1 :: "ndarray \<Rightarrow> ndarray" where
  "flip1 a = a\<lparr>cells := map rev (cells a)\<rparr>"

definition rot90 :: "ndarray \<Rightarrow> ndarray" where
  "rot90 a = nd_T (flip1 a)"

section \<open>The operations of MinigridState\<close>

definition DIR_TO_VEC :: "(int \<times> int) list" where
  "DIR_TO_VEC = [(1, 0), (0, 1), (-1, 0), (0, -1)]"

text \<open>
  \<^verbatim>\<open>np.array(self.agent_pos) + np.array(DIR_TO_VEC[self.agent_dir])\<close> adds two
  arrays of 64-bit signed integers: a sum beyond the range wraps around silently. The
  position is taken to hold 64-bit integers, as every pair of grid indices does.
\<close>

definition int64 :: "int \<Rightarrow> bool" where
  "int64 x \<longleftrightarrow> - (2 ^ 63) \<le> x \<and> x < 2 ^ 63"

definition wrap64 :: "int \<Rightarrow> int" where
  "wrap64 x = (x + 2 ^ 63) mod 2 ^ 64 - 2 ^ 63"

definition front_pos :: "MinigridState \<Rightarrow> py_error + int \<times> int" where
  "front_pos s =
     (case py_index (length DIR_TO_VEC) (agent_dir s) of
        Inl e \<Rightarrow> Inl e
      | Inr k \<Rightarrow> Inr (wrap64 (fst (agent_pos s) + fst (DIR_TO_VEC ! k)),
                      wrap64 (snd (agent_pos s) + snd (DIR_TO_VEC ! k))))"

text \<open>
  \<^verbatim>\<open>np.where(grid == type)\<close> lists the indices of the matching cells in row-major
  order, as a pair of index arrays that \<^verbatim>\<open>zip\<close> turns into coordinate pairs.
\<close>

definition get_type_indices :: "MinigridState \<Rightarrow> int \<Rightarrow> (nat \<times> nat) list" where
  "get_type_indices s t =
     concat (map (\<lambda>i. map (\<lambda>j. (i, j))
                        (filter (\<lambda>j. item (grid s) i j = t) [0..<shape1 (grid s)]))
                 [0..<shape0 (grid s)])"

text \<open>The extents of the visible square: the \<^verbatim>\<open>if/elif\<close> chain on the direction.\<close>

definition fov_top :: "MinigridState \<Rightarrow> int \<Rightarrow> py_error + int \<times> int" where
  "fov_top s view_size =
     (if agent_dir s = 0 then
        Inr (fst (agent_pos s), snd (agent_pos s) - view_size div 2)
      else if agent_dir s = 1 then
        Inr (fst (agent_pos s) - view_size div 2, snd (agent_pos s))
      else if agent_dir s = 2 then
        Inr (fst (agent_pos s) - view_size + 1, snd (agent_pos s) - view_size div 2)
      else if agent_dir s = 3 then
        Inr (fst (agent_pos s) - view_size div 2, snd (agent_pos s) - view_size + 1)
      else Inl AssertionError)"

text \<open>The overlapping region in the grid, \<open>((gx0, gx1), (gy0, gy1))\<close>.\<close>

definition fov_overlap ::
  "MinigridState \<Rightarrow> int \<times> int \<Rightarrow> int \<Rightarrow> (int \<times> int) \<times> (int \<times> int)" where
  "fov_overlap s tp view_size =
     ((max (fst tp) 0, min (fst tp + view_size) (width s)),
      (max (snd tp) 0, min (snd tp + view_size) (height s)))"

text \<open>Where the overlapping region goes in the padded array, \<open>(px0, py0)\<close>.\<close>

definition fov_offset :: "int \<times> int \<Rightarrow> int \<times> int" where
  "fov_offset tp = (max 0 (- fst tp), max 0 (- snd tp))"

text \<open>The window before it is rotated: the wall-filled array with the slice copied in.\<close>

definition fov_window :: "MinigridState \<Rightarrow> int \<Rightarrow> py_error + ndarray" where
  "fov_window s view_size =
     (case fov_top s view_size of
        Inl e \<Rightarrow> Inl e
      | Inr tp \<Rightarrow>
          (case np_full view_size view_size (code wall) of
             Inl e \<Rightarrow> Inl e
           | Inr fov \<Rightarrow>
               (let ((gx0, gx1), (gy0, gy1)) = fov_overlap s tp view_size;
                    (px0, py0) = fov_offset tp
                in setitem_slice fov (px0, px0 + (gx1 - gx0)) (py0, py0 + (gy1 - gy0))
                     (getitem_slice (grid s) (gx0, gx1) (gy0, gy1)))))"

text \<open>One pass of the rotation loop, and the loop itself.\<close>

definition rotate_left :: "ndarray \<Rightarrow> ndarray" where
  "rotate_left fov = nd_T (rot90 (nd_T fov))"

fun rotate_loop :: "nat \<Rightarrow> ndarray \<Rightarrow> ndarray" where
  "rotate_loop 0 fov = fov"
| "rotate_loop (Suc n) fov = rotate_loop n (rotate_left fov)"

text \<open>
  \<^verbatim>\<open>get_field_of_view\<close> returns the window and the state it leaves behind: the
  grid with the cell \<open>(width // 2, height - 1)\<close> overwritten.
\<close>

definition get_field_of_view ::
  "MinigridState \<Rightarrow> int \<Rightarrow> py_error + ndarray \<times> MinigridState" where
  "get_field_of_view s view_size =
     (case fov_window s view_size of
        Inl e \<Rightarrow> Inl e
      | Inr fov \<Rightarrow>
          (case setitem (grid s) (width s div 2, height s - 1) (code agent) of
             Inl e \<Rightarrow> Inl e
           | Inr g \<Rightarrow> Inr (rotate_loop (nat (agent_dir s + 1)) fov, s\<lparr>grid := g\<rparr>)))"

text \<open>An example grid, three by three with distinct cells, and the states on it.\<close>

definition example_grid :: ndarray where
  "example_grid = \<lparr>shape0 = 3, shape1 = 3, cells = [[1, 5, 9], [10, 7, 8], [11, 4, 6]]\<rparr>"

definition example_state :: "int \<times> int \<Rightarrow> int \<Rightarrow> MinigridState" where
  "example_state p d = \<lparr>grid = example_grid, agent_pos = p, agent_dir = d, carrying = None\<rparr>"

section \<open>The same operation on a store with views\<close>

text \<open>
  The store holds the arrays that own their data; an address is a position in it and
  \<^verbatim>\<open>np.full\<close> allocates at the end. A view is a base array with the
  transpositions and flips through which it is read: \<^verbatim>\<open>.T\<close>,
  \<^verbatim>\<open>np.flip\<close> and \<^verbatim>\<open>np.rot90\<close> copy nothing.
\<close>

type_synonym heap = "ndarray list"

datatype view_op = Transposed | Flipped1

record view =
  base :: nat
  path :: "view_op list"

fun apply_op :: "view_op \<Rightarrow> ndarray \<Rightarrow> ndarray" where
  "apply_op Transposed a = nd_T a"
| "apply_op Flipped1 a = flip1 a"

definition read_view :: "heap \<Rightarrow> view \<Rightarrow> ndarray" where
  "read_view h x = fold apply_op (path x) (h ! base x)"

definition view_T :: "view \<Rightarrow> view" where
  "view_T x = x\<lparr>path := path x @ [Transposed]\<rparr>"

definition view_flip1 :: "view \<Rightarrow> view" where
  "view_flip1 x = x\<lparr>path := path x @ [Flipped1]\<rparr>"

definition view_rot90 :: "view \<Rightarrow> view" where
  "view_rot90 x = view_T (view_flip1 x)"

definition rotate_left_view :: "view \<Rightarrow> view" where
  "rotate_left_view fov = view_T (view_rot90 (view_T fov))"

fun rotate_loop_view :: "nat \<Rightarrow> view \<Rightarrow> view" where
  "rotate_loop_view 0 fov = fov"
| "rotate_loop_view (Suc n) fov = rotate_loop_view n (rotate_left_view fov)"

text \<open>The state object, holding a reference to its grid.\<close>

record MinigridObject =
  grid_ref :: nat
  obj_agent_pos :: "int \<times> int"
  obj_agent_dir :: int
  obj_carrying :: "int option"

definition state_of :: "heap \<Rightarrow> MinigridObject \<Rightarrow> MinigridState" where
  "state_of h self = \<lparr>grid = h ! grid_ref self, agent_pos = obj_agent_pos self,
                      agent_dir = obj_agent_dir self, carrying = obj_carrying self\<rparr>"

text \<open>
  \<^verbatim>\<open>get_field_of_view\<close> on the store: the window is allocated, the slice is
  copied into it, the loop rebinds \<open>fov\<close> to views of it, and the grid is written
  in place. The result is the view and the store left behind.
\<close>

definition get_field_of_view_heap ::
  "heap \<Rightarrow> MinigridObject \<Rightarrow> int \<Rightarrow> py_error + view \<times> heap" where
  "get_field_of_view_heap h self view_size =
     (case fov_top (state_of h self) view_size of
        Inl e \<Rightarrow> Inl e
      | Inr tp \<Rightarrow>
          (case np_full view_size view_size (code wall) of
             Inl e \<Rightarrow> Inl e
           | Inr full \<Rightarrow>
               (let a = length h;
                    h1 = h @ [full];
                    ((gx0, gx1), (gy0, gy1)) = fov_overlap (state_of h1 self) tp view_size;
                    (px0, py0) = fov_offset tp
                in case setitem_slice (h1 ! a) (px0, px0 + (gx1 - gx0)) (py0, py0 + (gy1 - gy0))
                          (getitem_slice (h1 ! grid_ref self) (gx0, gx1) (gy0, gy1)) of
                     Inl e \<Rightarrow> Inl e
                   | Inr written \<Rightarrow>
                       (let h2 = h1[a := written];
                            fov = rotate_loop_view (nat (obj_agent_dir self + 1))
                                    \<lparr>base = a, path = []\<rparr>
                        in case setitem (h2 ! grid_ref self)
                                  (width (state_of h2 self) div 2, height (state_of h2 self) - 1)
                                  (code agent) of
                             Inl e \<Rightarrow> Inl e
                           | Inr g \<Rightarrow> Inr (fov, h2[grid_ref self := g])))))"

definition example_object :: MinigridObject where
  "example_object = \<lparr>grid_ref = 0, obj_agent_pos = (1, 1), obj_agent_dir = 1, obj_carrying = None\<rparr>"

section \<open>Auxiliary notions for the statements\<close>

text \<open>
  Row-major order on coordinates: ascending first index, ties broken by ascending
  second index. \<open>row_hits\<close> names the part of the scan of \<open>get_type_indices\<close> that
  walks one row.
\<close>

definition lex_less :: "nat \<times> nat \<Rightarrow> nat \<times> nat \<Rightarrow> bool" where
  "lex_less p q \<longleftrightarrow> fst p < fst q \<or> (fst p = fst q \<and> snd p < snd q)"

definition row_hits :: "ndarray \<Rightarrow> int \<Rightarrow> nat \<Rightarrow> (nat \<times> nat) list" where
  "row_hits g t i = map (\<lambda>j. (i, j)) (filter (\<lambda>j. item g i j = t) [0..<shape1 g])"

text \<open>The window that is all wall.\<close>

definition wall_window :: "int \<Rightarrow> ndarray" where
  "wall_window v = \<lparr>shape0 = nat v, shape1 = nat v,
       cells = replicate (nat v) (replicate (nat v) (code wall))\<rparr>"

text \<open>A two-by-two array that tells the two quarter-turns apart.\<close>

definition quarter_example :: ndarray where
  "quarter_example = \<lparr>shape0 = 2, shape1 = 2, cells = [[1, 5], [10, 7]]\<rparr>"

section \<open>Properties of the primitives\<close>

lemma np_full_Inr:
  "(\<exists>a. np_full n m c = Inr a) \<longleftrightarrow> 0 \<le> n \<and> 0 \<le> m"
  by (auto simp: np_full_def)

lemma np_full_props:
  assumes "np_full n m c = Inr a"
  shows "shape0 a = nat n" "shape1 a = nat m" "wf_array a"
    "i < nat n \<Longrightarrow> j < nat m \<Longrightarrow> item a i j = c"
  using assms by (auto simp: np_full_def wf_array_def item_def list_all_length split: if_splits)

lemma setitem_slice_shape:
  assumes "setitem_slice a rs cs src = Inr b"
  shows "shape0 b = shape0 a" "shape1 b = shape1 a" "wf_array b"
  using assms
  by (auto simp: setitem_slice_def wf_array_def list_all_length Let_def
      split: prod.splits if_splits)

lemma setitem_slice_item:
  assumes "setitem_slice a rs cs src = Inr b" "i < shape0 a" "j < shape1 a"
    "slice_indices (shape0 a) rs = (r0, r1)" "slice_indices (shape1 a) cs = (c0, c1)"
  shows "item b i j =
     (if r0 \<le> i \<and> i < r1 \<and> c0 \<le> j \<and> j < c1
      then item src (if shape0 src = 1 then 0 else i - r0) (if shape1 src = 1 then 0 else j - c0)
      else item a i j)"
proof -
  have "cells b = map (\<lambda>i. map (\<lambda>j.
                       if r0 \<le> i \<and> i < r1 \<and> c0 \<le> j \<and> j < c1
                       then item src (if shape0 src = 1 then 0 else i - r0)
                                     (if shape1 src = 1 then 0 else j - c0)
                       else item a i j) [0..<shape1 a]) [0..<shape0 a]"
    using assms(1,4,5) by (auto simp: setitem_slice_def split: if_splits)
  then show ?thesis
    using assms(2,3) by (simp add: item_def)
qed

lemma getitem_slice_shape:
  assumes "slice_indices (shape0 a) rs = (r0, r1)" "slice_indices (shape1 a) cs = (c0, c1)"
  shows "shape0 (getitem_slice a rs cs) = r1 - r0" "shape1 (getitem_slice a rs cs) = c1 - c0"
  using assms by (simp_all add: getitem_slice_def)

lemma getitem_slice_item:
  assumes "slice_indices (shape0 a) rs = (r0, r1)" "slice_indices (shape1 a) cs = (c0, c1)"
    "i < r1 - r0" "j < c1 - c0"
  shows "item (getitem_slice a rs cs) i j = item a (r0 + i) (c0 + j)"
proof -
  have "cells (getitem_slice a rs cs) = map (\<lambda>i. map (\<lambda>j. item a i j) [c0..<c1]) [r0..<r1]"
    using assms(1,2) by (simp add: getitem_slice_def)
  then show ?thesis using assms(3,4) by (simp add: item_def)
qed

lemma axis_source:
  assumes "max t 0 \<le> min (t + v) (int n)"
  shows "slice_indices n (max t 0, min (t + v) (int n)) = (nat (max t 0), nat (min (t + v) (int n)))"
  using assms by (auto simp: slice_indices_def slice_bound_def)

lemma axis_target:
  assumes "max t 0 \<le> min (t + v) (int n)"
  shows "slice_indices (nat v) (max 0 (- t), max 0 (- t) + (min (t + v) (int n) - max t 0))
         = (nat (max 0 (- t)), nat (max 0 (- t) + (min (t + v) (int n) - max t 0)))"
  using assms by (auto simp: slice_indices_def slice_bound_def)

lemma axis_extent:
  assumes "max t 0 \<le> min (t + v) (int n)"
  shows "nat (min (t + v) (int n)) - nat (max t 0)
         = nat (max 0 (- t) + (min (t + v) (int n) - max t 0)) - nat (max 0 (- t))"
  using assms by (simp add: max_def min_def nat_diff_distrib split: if_splits)

lemma axis_member:
  assumes "max t 0 < min (t + v) (int n)" "i < nat v"
  shows "(nat (max 0 (- t)) \<le> i \<and> i < nat (max 0 (- t) + (min (t + v) (int n) - max t 0)))
         \<longleftrightarrow> (0 \<le> t + int i \<and> t + int i < int n)"
  using assms by auto

lemma axis_index:
  assumes "0 \<le> t + int i" "nat (max 0 (- t)) \<le> i"
  shows "nat (max t 0) + (i - nat (max 0 (- t))) = nat (t + int i)"
  using assms by auto


lemma fov_top_Inr:
  "(\<exists>tp. fov_top s v = Inr tp) \<longleftrightarrow> agent_dir s \<in> {0, 1, 2, 3}"
  by (auto simp: fov_top_def)

lemma fov_top_contains:
  assumes "fov_top s v = Inr tp" "1 \<le> v"
  shows "fst tp \<le> fst (agent_pos s)" "fst (agent_pos s) < fst tp + v"
    "snd tp \<le> snd (agent_pos s)" "snd (agent_pos s) < snd tp + v"
  using assms by (auto simp: fov_top_def split: if_splits)

lemma fov_window_unfold:
  assumes "fov_top s v = Inr tp" "np_full v v (code wall) = Inr f"
  shows "fov_window s v =
    setitem_slice f
      (max 0 (- fst tp), max 0 (- fst tp) + (min (fst tp + v) (width s) - max (fst tp) 0))
      (max 0 (- snd tp), max 0 (- snd tp) + (min (snd tp + v) (height s) - max (snd tp) 0))
      (getitem_slice (grid s) (max (fst tp) 0, min (fst tp + v) (width s))
          (max (snd tp) 0, min (snd tp + v) (height s)))"
  using assms by (simp add: fov_window_def fov_overlap_def fov_offset_def)

lemma setitem_slice_ok:
  assumes "slice_indices (shape0 a) rs = (r0, r1)" "slice_indices (shape1 a) cs = (c0, c1)"
    "shape0 src = r1 - r0" "shape1 src = c1 - c0"
  shows "\<exists>b. setitem_slice a rs cs src = Inr b"
  using assms by (simp add: setitem_slice_def)

lemma setitem_slice_item_eq:
  assumes "setitem_slice a rs cs src = Inr b" "i < shape0 a" "j < shape1 a"
    "slice_indices (shape0 a) rs = (r0, r1)" "slice_indices (shape1 a) cs = (c0, c1)"
    "shape0 src = r1 - r0" "shape1 src = c1 - c0"
  shows "item b i j =
     (if r0 \<le> i \<and> i < r1 \<and> c0 \<le> j \<and> j < c1
      then item src (i - r0) (j - c0) else item a i j)"
proof -
  have "r0 \<le> i \<Longrightarrow> i < r1 \<Longrightarrow> shape0 src = 1 \<Longrightarrow> i - r0 = 0"
    using assms(6) by arith
  moreover have "c0 \<le> j \<Longrightarrow> j < c1 \<Longrightarrow> shape1 src = 1 \<Longrightarrow> j - c0 = 0"
    using assms(7) by arith
  ultimately show ?thesis
    unfolding setitem_slice_item [OF assms(1-5)] by auto
qed

lemma shift_less:
  fixes i lo hi n :: nat
  assumes "lo \<le> i" "i < hi" "n = hi - lo"
  shows "i - lo < n"
  using assms by simp


section \<open>The window before rotation\<close>

text \<open>
  Claim C1. For a state whose agent stands inside the grid and faces one of the four
  directions, and a view size of at least one (odd or not), the window that
  \<open>get_field_of_view\<close> builds before rotating it exists, is a well-formed square of
  side \<open>view_size\<close>, and holds at every index \<open>(i, j)\<close> the grid cell at
  \<open>(topX + i, topY + j)\<close> when that point lies inside the grid and the wall code
  otherwise.
\<close>

theorem fov_window_cells:
  assumes "in_grid s (agent_pos s)" "agent_dir s \<in> {0, 1, 2, 3}" "1 \<le> v"
  shows "\<exists>tp w. fov_top s v = Inr tp \<and> fov_window s v = Inr w \<and>
           shape0 w = nat v \<and> shape1 w = nat v \<and> wf_array w \<and>
           (\<forall>i j. i < nat v \<longrightarrow> j < nat v \<longrightarrow>
              item w i j =
                (if in_grid s (fst tp + int i, snd tp + int j)
                 then item (grid s) (nat (fst tp + int i)) (nat (snd tp + int j))
                 else code wall))"
proof -
  obtain tp where tp: "fov_top s v = Inr tp"
    using assms(2) fov_top_Inr by blast
  obtain f where f: "np_full v v (code wall) = Inr f"
    using assms(3) np_full_Inr [of v v "code wall"] by auto
  note fp = np_full_props [OF f]
  define W H tx ty where "W = shape0 (grid s)" and "H = shape1 (grid s)"
    and "tx = fst tp" and "ty = snd tp"
  have ox: "max tx 0 < min (tx + v) (int W)"
    using fov_top_contains [OF tp assms(3)] assms(1)
    by (auto simp: in_grid_def width_def W_def tx_def)
  have oy: "max ty 0 < min (ty + v) (int H)"
    using fov_top_contains [OF tp assms(3)] assms(1)
    by (auto simp: in_grid_def height_def H_def ty_def)
  define gx0 gx1 gy0 gy1 px0 py0 where "gx0 = max tx 0" and "gx1 = min (tx + v) (int W)"
    and "gy0 = max ty 0" and "gy1 = min (ty + v) (int H)"
    and "px0 = max 0 (- tx)" and "py0 = max 0 (- ty)"
  define src where "src = getitem_slice (grid s) (gx0, gx1) (gy0, gy1)"
  have win: "fov_window s v =
      setitem_slice f (px0, px0 + (gx1 - gx0)) (py0, py0 + (gy1 - gy0)) src"
    unfolding fov_window_unfold [OF tp f] src_def gx0_def gx1_def gy0_def gy1_def
      px0_def py0_def tx_def ty_def W_def H_def width_def height_def ..
  have sr: "slice_indices (shape0 (grid s)) (gx0, gx1) = (nat gx0, nat gx1)"
    using axis_source [OF less_imp_le [OF ox]] unfolding gx0_def gx1_def W_def .
  have sc: "slice_indices (shape1 (grid s)) (gy0, gy1) = (nat gy0, nat gy1)"
    using axis_source [OF less_imp_le [OF oy]] unfolding gy0_def gy1_def H_def .
  have tr: "slice_indices (shape0 f) (px0, px0 + (gx1 - gx0))
      = (nat px0, nat (px0 + (gx1 - gx0)))"
    using axis_target [OF less_imp_le [OF ox]] unfolding fp(1) px0_def gx0_def gx1_def .
  have tc: "slice_indices (shape1 f) (py0, py0 + (gy1 - gy0))
      = (nat py0, nat (py0 + (gy1 - gy0)))"
    using axis_target [OF less_imp_le [OF oy]] unfolding fp(2) py0_def gy0_def gy1_def .
  have e0: "shape0 src = nat (px0 + (gx1 - gx0)) - nat px0"
    unfolding src_def getitem_slice_shape(1) [OF sr sc]
    using axis_extent [OF less_imp_le [OF ox]] unfolding px0_def gx0_def gx1_def .
  have e1: "shape1 src = nat (py0 + (gy1 - gy0)) - nat py0"
    unfolding src_def getitem_slice_shape(2) [OF sr sc]
    using axis_extent [OF less_imp_le [OF oy]] unfolding py0_def gy0_def gy1_def .
  have ex: "nat gx1 - nat gx0 = nat (px0 + (gx1 - gx0)) - nat px0"
    using axis_extent [OF less_imp_le [OF ox]] unfolding px0_def gx0_def gx1_def .
  have ey: "nat gy1 - nat gy0 = nat (py0 + (gy1 - gy0)) - nat py0"
    using axis_extent [OF less_imp_le [OF oy]] unfolding py0_def gy0_def gy1_def .
  obtain w where w: "setitem_slice f (px0, px0 + (gx1 - gx0)) (py0, py0 + (gy1 - gy0)) src
      = Inr w"
    using setitem_slice_ok [OF tr tc e0 e1] by blast
  note ws = setitem_slice_shape [OF w]
  have cell: "item w i j =
                (if in_grid s (tx + int i, ty + int j)
                 then item (grid s) (nat (tx + int i)) (nat (ty + int j))
                 else code wall)" if i: "i < nat v" and j: "j < nat v" for i j
  proof -
    have mi: "(nat px0 \<le> i \<and> i < nat (px0 + (gx1 - gx0)))
              \<longleftrightarrow> (0 \<le> tx + int i \<and> tx + int i < int W)"
      using axis_member [OF ox i] unfolding px0_def gx0_def gx1_def .
    have mj: "(nat py0 \<le> j \<and> j < nat (py0 + (gy1 - gy0)))
              \<longleftrightarrow> (0 \<le> ty + int j \<and> ty + int j < int H)"
      using axis_member [OF oy j] unfolding py0_def gy0_def gy1_def .
    have ig: "in_grid s (tx + int i, ty + int j) \<longleftrightarrow>
        (nat px0 \<le> i \<and> i < nat (px0 + (gx1 - gx0))) \<and>
        (nat py0 \<le> j \<and> j < nat (py0 + (gy1 - gy0)))"
      unfolding mi mj by (auto simp: in_grid_def width_def height_def W_def H_def)
    have it: "item w i j =
       (if nat px0 \<le> i \<and> i < nat (px0 + (gx1 - gx0)) \<and>
           nat py0 \<le> j \<and> j < nat (py0 + (gy1 - gy0))
        then item src (i - nat px0) (j - nat py0)
        else item f i j)"
    proof (rule setitem_slice_item_eq [OF w _ _ tr tc e0 e1])
      show "i < shape0 f" using i by (simp only: fp(1))
      show "j < shape1 f" using j by (simp only: fp(2))
    qed
    show ?thesis
    proof (cases "in_grid s (tx + int i, ty + int j)")
      case False
      then have "\<not> (nat px0 \<le> i \<and> i < nat (px0 + (gx1 - gx0)) \<and>
           nat py0 \<le> j \<and> j < nat (py0 + (gy1 - gy0)))"
        using ig by blast
      then have "item w i j = item f i j"
        by (simp only: it if_False)
      then show ?thesis
        using False fp(4) [OF i j] by simp
    next
      case True
      then have ri: "nat px0 \<le> i" "i < nat (px0 + (gx1 - gx0))"
        and rj: "nat py0 \<le> j" "j < nat (py0 + (gy1 - gy0))"
        using ig by blast+
      have inx: "0 \<le> tx + int i" and iny: "0 \<le> ty + int j"
        using True by (simp_all add: in_grid_def)
      have li: "i - nat px0 < nat gx1 - nat gx0"
        by (rule shift_less [OF ri ex])
      have lj: "j - nat py0 < nat gy1 - nat gy0"
        by (rule shift_less [OF rj ey])
      have xi: "nat gx0 + (i - nat px0) = nat (tx + int i)"
        using axis_index [OF inx] ri(1) unfolding px0_def gx0_def by blast
      have yj: "nat gy0 + (j - nat py0) = nat (ty + int j)"
        using axis_index [OF iny] rj(1) unfolding py0_def gy0_def by blast
      have "item w i j = item src (i - nat px0) (j - nat py0)"
        using it ri rj by simp
      also have "\<dots> = item (grid s) (nat gx0 + (i - nat px0)) (nat gy0 + (j - nat py0))"
        unfolding src_def by (rule getitem_slice_item [OF sr sc li lj])
      finally show ?thesis using True xi yj by simp
    qed
  qed
  show ?thesis
  proof (intro exI conjI allI impI)
    show "fov_top s v = Inr tp" by (rule tp)
    show "fov_window s v = Inr w" using win w by simp
    show "shape0 w = nat v" using ws(1) fp(1) by simp
    show "shape1 w = nat v" using ws(2) fp(2) by simp
    show "wf_array w" by (rule ws(3))
    show "item w i j =
                (if in_grid s (fst tp + int i, snd tp + int j)
                 then item (grid s) (nat (fst tp + int i)) (nat (snd tp + int j))
                 else code wall)" if "i < nat v" "j < nat v" for i j
      using cell [OF that] unfolding tx_def ty_def .
  qed
qed

theorem fov_window_cells_witness:
  "in_grid (example_state (0, 1) 0) (agent_pos (example_state (0, 1) 0)) \<and>
   agent_dir (example_state (0, 1) 0) \<in> {0, 1, 2, 3} \<and> (1::int) \<le> 3 \<and>
   (\<exists>tp w. fov_top (example_state (0, 1) 0) 3 = Inr tp \<and>
      fov_window (example_state (0, 1) 0) 3 = Inr w \<and>
      item w 1 2 = item example_grid (nat (fst tp + 1)) (nat (snd tp + 2)) \<and>
      item w 2 0 = item example_grid (nat (fst tp + 2)) (nat (snd tp + 0)))"
proof -
  let ?s = "example_state (0, 1) 0"
  have h1: "in_grid ?s (agent_pos ?s)"
    by (simp add: in_grid_def example_state_def example_grid_def width_def height_def)
  have h2: "agent_dir ?s \<in> {0, 1, 2, 3}"
    by (simp add: example_state_def)
  have h3: "(1::int) \<le> 3"
    by simp
  obtain tp w where tw: "fov_top ?s 3 = Inr tp" "fov_window ?s 3 = Inr w"
    and cell: "\<And>i j. i < nat 3 \<Longrightarrow> j < nat 3 \<Longrightarrow> item w i j =
                (if in_grid ?s (fst tp + int i, snd tp + int j)
                 then item (grid ?s) (nat (fst tp + int i)) (nat (snd tp + int j))
                 else code wall)"
    using fov_window_cells [OF h1 h2 h3] by blast
  have tp: "tp = (0, 0)"
    using tw(1) by (simp add: fov_top_def example_state_def)
  have g: "grid ?s = example_grid"
    by (simp add: example_state_def)
  have c12: "item w 1 2 = item example_grid (nat (fst tp + 1)) (nat (snd tp + 2))"
    using cell [of 1 2] unfolding tp g
    by (simp add: in_grid_def example_state_def example_grid_def width_def height_def)
  have c20: "item w 2 0 = item example_grid (nat (fst tp + 2)) (nat (snd tp + 0))"
    using cell [of 2 0] unfolding tp g
    by (simp add: in_grid_def example_state_def example_grid_def width_def height_def)
  show ?thesis
    using h1 h2 h3 tw c12 c20 by blast
qed

section \<open>The corner of the window\<close>

text \<open>
  Claim C2. The top-left corner of the window is \<open>(x, y - h)\<close> facing right,
  \<open>(x - h, y)\<close> facing down, \<open>(x - view_size + 1, y - h)\<close> facing left and
  \<open>(x - h, y - view_size + 1)\<close> facing up, where \<open>(x, y)\<close> is the agent's position
  and \<open>h\<close> is \<open>view_size\<close> halved and rounded down: the integer with
  \<open>2 * h \<le> view_size < 2 * h + 2\<close>. No condition on the view size is needed.
\<close>

theorem fov_top_corner:
  "2 * (v div 2) \<le> v \<and> v < 2 * (v div 2) + 2 \<and>
   (agent_dir s = 0 \<longrightarrow>
      fov_top s v = Inr (fst (agent_pos s), snd (agent_pos s) - v div 2)) \<and>
   (agent_dir s = 1 \<longrightarrow>
      fov_top s v = Inr (fst (agent_pos s) - v div 2, snd (agent_pos s))) \<and>
   (agent_dir s = 2 \<longrightarrow>
      fov_top s v = Inr (fst (agent_pos s) - v + 1, snd (agent_pos s) - v div 2)) \<and>
   (agent_dir s = 3 \<longrightarrow>
      fov_top s v = Inr (fst (agent_pos s) - v div 2, snd (agent_pos s) - v + 1))"
proof -
  have "2 * (v div 2) \<le> v" "v < 2 * (v div 2) + 2"
    by presburger+
  then show ?thesis
    by (simp add: fov_top_def)
qed

theorem fov_top_corner_witness:
  "fov_top (example_state (4, 6) 0) 5 = Inr (4, 4) \<and>
   fov_top (example_state (4, 6) 1) 5 = Inr (2, 6) \<and>
   fov_top (example_state (4, 6) 2) 5 = Inr (0, 4) \<and>
   fov_top (example_state (4, 6) 3) 5 = Inr (2, 2)"
  using fov_top_corner [of 5 "example_state (4, 6) 0"]
    fov_top_corner [of 5 "example_state (4, 6) 1"]
    fov_top_corner [of 5 "example_state (4, 6) 2"]
    fov_top_corner [of 5 "example_state (4, 6) 3"]
  by (simp add: example_state_def)

section \<open>The cell in front of the agent\<close>

lemma wrap64_id:
  assumes "int64 x"
  shows "wrap64 x = x"
proof -
  have "0 \<le> x + 2 ^ 63" "x + 2 ^ 63 < 2 ^ 64"
    using assms by (simp_all add: int64_def)
  then have "(x + 2 ^ 63) mod 2 ^ 64 = x + 2 ^ 63"
    by (rule mod_pos_pos_trivial)
  then show ?thesis
    by (simp add: wrap64_def)
qed

lemma front_pos_table:
  "(agent_dir s = 0 \<longrightarrow>
      front_pos s = Inr (wrap64 (fst (agent_pos s) + 1), wrap64 (snd (agent_pos s)))) \<and>
   (agent_dir s = 1 \<longrightarrow>
      front_pos s = Inr (wrap64 (fst (agent_pos s)), wrap64 (snd (agent_pos s) + 1))) \<and>
   (agent_dir s = 2 \<longrightarrow>
      front_pos s = Inr (wrap64 (fst (agent_pos s) - 1), wrap64 (snd (agent_pos s)))) \<and>
   (agent_dir s = 3 \<longrightarrow>
      front_pos s = Inr (wrap64 (fst (agent_pos s)), wrap64 (snd (agent_pos s) - 1)))"
  by (simp add: front_pos_def py_index_def DIR_TO_VEC_def)

lemma front_pos_valid:
  assumes "- (2 ^ 63) < fst (agent_pos s)" "fst (agent_pos s) < 2 ^ 63 - 1"
    and "- (2 ^ 63) < snd (agent_pos s)" "snd (agent_pos s) < 2 ^ 63 - 1"
  shows
  "(agent_dir s = 0 \<longrightarrow> front_pos s = Inr (fst (agent_pos s) + 1, snd (agent_pos s))) \<and>
   (agent_dir s = 1 \<longrightarrow> front_pos s = Inr (fst (agent_pos s), snd (agent_pos s) + 1)) \<and>
   (agent_dir s = 2 \<longrightarrow> front_pos s = Inr (fst (agent_pos s) - 1, snd (agent_pos s))) \<and>
   (agent_dir s = 3 \<longrightarrow> front_pos s = Inr (fst (agent_pos s), snd (agent_pos s) - 1))"
proof -
  have "wrap64 (fst (agent_pos s)) = fst (agent_pos s)"
    "wrap64 (fst (agent_pos s) + 1) = fst (agent_pos s) + 1"
    "wrap64 (fst (agent_pos s) - 1) = fst (agent_pos s) - 1"
    using assms(1,2) by (simp_all add: wrap64_id int64_def)
  moreover have "wrap64 (snd (agent_pos s)) = snd (agent_pos s)"
    "wrap64 (snd (agent_pos s) + 1) = snd (agent_pos s) + 1"
    "wrap64 (snd (agent_pos s) - 1) = snd (agent_pos s) - 1"
    using assms(3,4) by (simp_all add: wrap64_id int64_def)
  ultimately show ?thesis
    using front_pos_table [of s] by simp
qed

lemma front_pos_off_grid:
  "in_grid (example_state (2, 1) 0) (agent_pos (example_state (2, 1) 0)) \<and>
   front_pos (example_state (2, 1) 0) = Inr (3, 1) \<and>
   \<not> in_grid (example_state (2, 1) 0) (3, 1)"
  by (simp add: front_pos_def py_index_def DIR_TO_VEC_def example_state_def example_grid_def
      in_grid_def width_def height_def wrap64_def)

text \<open>
  At the end of the 64-bit range the sum wraps: one step to the right of
  \<open>2 ^ 63 - 1\<close> is \<open>- (2 ^ 63)\<close>.
\<close>

lemma front_pos_wraps:
  "front_pos (example_state (2 ^ 63 - 1, 0) 0) = Inr (- (2 ^ 63), 0)"
  by (simp add: front_pos_def py_index_def DIR_TO_VEC_def example_state_def wrap64_def)

text \<open>
  Claim C7. For each of the four directions \<open>front_pos\<close> returns the agent's
  position moved by the unit vector of the direction: \<open>(+1, 0)\<close>, \<open>(0, +1)\<close>,
  \<open>(-1, 0)\<close>, \<open>(0, -1)\<close>. The grid is never consulted, so nothing is clamped and no
  error is raised: for an agent inside the grid the result can lie outside it. The
  coordinates are those of 64-bit integers strictly inside the range, so that the
  64-bit addition of numpy does not wrap; every position inside a grid is such.
\<close>

theorem front_pos_vector:
  assumes "- (2 ^ 63) < fst (agent_pos s)" "fst (agent_pos s) < 2 ^ 63 - 1"
    and "- (2 ^ 63) < snd (agent_pos s)" "snd (agent_pos s) < 2 ^ 63 - 1"
  shows
  "(agent_dir s = 0 \<longrightarrow> front_pos s = Inr (fst (agent_pos s) + 1, snd (agent_pos s))) \<and>
   (agent_dir s = 1 \<longrightarrow> front_pos s = Inr (fst (agent_pos s), snd (agent_pos s) + 1)) \<and>
   (agent_dir s = 2 \<longrightarrow> front_pos s = Inr (fst (agent_pos s) - 1, snd (agent_pos s))) \<and>
   (agent_dir s = 3 \<longrightarrow> front_pos s = Inr (fst (agent_pos s), snd (agent_pos s) - 1)) \<and>
   (\<exists>s' p. in_grid s' (agent_pos s') \<and> agent_dir s' \<in> {0, 1, 2, 3} \<and>
       front_pos s' = Inr p \<and> \<not> in_grid s' p)"
proof -
  have "\<exists>s' p. in_grid s' (agent_pos s') \<and> agent_dir s' \<in> {0, 1, 2, 3} \<and>
       front_pos s' = Inr p \<and> \<not> in_grid s' p"
  proof (intro exI conjI)
    show "in_grid (example_state (2, 1) 0) (agent_pos (example_state (2, 1) 0))"
      using front_pos_off_grid by blast
    show "agent_dir (example_state (2, 1) 0) \<in> {0, 1, 2, 3}"
      by (simp add: example_state_def)
    show "front_pos (example_state (2, 1) 0) = Inr (3, 1)"
      using front_pos_off_grid by blast
    show "\<not> in_grid (example_state (2, 1) 0) (3, 1)"
      using front_pos_off_grid by blast
  qed
  then show ?thesis
    using front_pos_valid [OF assms] by blast
qed

theorem front_pos_vector_witness:
  "- (2 ^ 63) < fst (agent_pos (example_state (2, 1) 0)) \<and>
   fst (agent_pos (example_state (2, 1) 0)) < 2 ^ 63 - 1 \<and>
   - (2 ^ 63) < snd (agent_pos (example_state (2, 1) 0)) \<and>
   snd (agent_pos (example_state (2, 1) 0)) < 2 ^ 63 - 1 \<and>
   front_pos (example_state (2, 1) 0) = Inr (3, 1) \<and>
   front_pos (example_state (2, 2) 1) = Inr (2, 3) \<and>
   front_pos (example_state (0, 1) 2) = Inr (-1, 1) \<and>
   front_pos (example_state (1, 0) 3) = Inr (1, -1)"
proof -
  have b: "- (2 ^ 63) < fst (agent_pos (example_state p d))"
      "fst (agent_pos (example_state p d)) < 2 ^ 63 - 1"
      "- (2 ^ 63) < snd (agent_pos (example_state p d))"
      "snd (agent_pos (example_state p d)) < 2 ^ 63 - 1"
    if "p \<in> {(2, 1), (2, 2), (0, 1), (1, 0)}" for p d
    using that by (auto simp: example_state_def)
  have r: "front_pos (example_state (2, 1) 0) = Inr (3, 1)"
    using front_pos_vector [OF b [of "(2, 1)" 0]] by (simp add: example_state_def)
  have d: "front_pos (example_state (2, 2) 1) = Inr (2, 3)"
    using front_pos_vector [OF b [of "(2, 2)" 1]] by (simp add: example_state_def)
  have l: "front_pos (example_state (0, 1) 2) = Inr (-1, 1)"
    using front_pos_vector [OF b [of "(0, 1)" 2]] by (simp add: example_state_def)
  have u: "front_pos (example_state (1, 0) 3) = Inr (1, -1)"
    using front_pos_vector [OF b [of "(1, 0)" 3]] by (simp add: example_state_def)
  show ?thesis
    using b [of "(2, 1)" 0] r d l u by simp
qed

section \<open>Cells of a given type\<close>

lemma set_row_hits:
  "set (row_hits g t i) = {(i', j). i' = i \<and> j < shape1 g \<and> item g i j = t}"
  by (auto simp: row_hits_def)

lemma sorted_row_hits: "sorted_wrt lex_less (row_hits g t i)"
  unfolding row_hits_def sorted_wrt_map
  by (rule sorted_wrt_filter) (simp add: lex_less_def)

lemma set_scan:
  "set (concat (map (row_hits g t) [0..<n])) =
     {(i, j). i < n \<and> j < shape1 g \<and> item g i j = t}"
  by (auto simp: set_row_hits)

lemma sorted_scan: "sorted_wrt lex_less (concat (map (row_hits g t) [0..<n]))"
proof (induction n)
  case 0
  show ?case by simp
next
  case (Suc n)
  have "\<forall>p \<in> set (concat (map (row_hits g t) [0..<n])). \<forall>q \<in> set (row_hits g t n). lex_less p q"
    unfolding set_scan set_row_hits by (auto simp: lex_less_def)
  then show ?case
    using Suc sorted_row_hits [of g t n] by (simp add: sorted_wrt_append)
qed

lemma get_type_indices_scan:
  "get_type_indices s t = concat (map (row_hits (grid s) t) [0..<shape0 (grid s)])"
  unfolding get_type_indices_def row_hits_def ..

text \<open>
  Claim C6. \<open>get_type_indices\<close> returns exactly the coordinates \<open>(i, j)\<close> of the
  grid whose cell equals the given code, strictly ascending in row-major order (so no
  coordinate is listed twice), and the list depends on nothing but the grid: changing
  the agent's position, its direction or what it carries leaves the result the same.
\<close>

theorem get_type_indices_row_major:
  "set (get_type_indices s t) =
     {(i, j). i < shape0 (grid s) \<and> j < shape1 (grid s) \<and> item (grid s) i j = t} \<and>
   sorted_wrt lex_less (get_type_indices s t) \<and>
   get_type_indices (s\<lparr>agent_pos := p, agent_dir := d, carrying := c\<rparr>) t
     = get_type_indices s t"
proof (intro conjI)
  show "set (get_type_indices s t) =
     {(i, j). i < shape0 (grid s) \<and> j < shape1 (grid s) \<and> item (grid s) i j = t}"
    unfolding get_type_indices_scan by (rule set_scan)
  show "sorted_wrt lex_less (get_type_indices s t)"
    unfolding get_type_indices_scan by (rule sorted_scan)
  show "get_type_indices (s\<lparr>agent_pos := p, agent_dir := d, carrying := c\<rparr>) t
     = get_type_indices s t"
    by (simp add: get_type_indices_def)
qed

section \<open>The window contains the agent\<close>

lemma axis_positive:
  assumes "max t 0 < min (t + v) (int n)"
  shows "0 < nat (min (t + v) (int n)) - nat (max t 0)"
  using assms by (simp add: max_def min_def split: if_splits)


text \<open>
  Claim C9. For an agent inside the grid, one of the four directions and a view size
  of at least one, the window \<open>[topX, topX + view_size) \<times> [topY, topY + view_size)\<close>
  contains the agent's position. Hence the overlap with the grid is not empty
  (\<open>gx0 < gx1\<close> and \<open>gy0 < gy1\<close>), and both the slice read from the grid and the slice
  of the window it is copied to have a positive extent along both axes.
\<close>

theorem fov_window_contains_agent:
  assumes "in_grid s (agent_pos s)" "agent_dir s \<in> {0, 1, 2, 3}" "1 \<le> v"
  shows "\<exists>tp gx0 gx1 gy0 gy1 px0 py0.
           fov_top s v = Inr tp \<and>
           fst tp \<le> fst (agent_pos s) \<and> fst (agent_pos s) < fst tp + v \<and>
           snd tp \<le> snd (agent_pos s) \<and> snd (agent_pos s) < snd tp + v \<and>
           fov_overlap s tp v = ((gx0, gx1), (gy0, gy1)) \<and> fov_offset tp = (px0, py0) \<and>
           gx0 < gx1 \<and> gy0 < gy1 \<and>
           0 < shape0 (getitem_slice (grid s) (gx0, gx1) (gy0, gy1)) \<and>
           0 < shape1 (getitem_slice (grid s) (gx0, gx1) (gy0, gy1)) \<and>
           fst (slice_indices (nat v) (px0, px0 + (gx1 - gx0)))
             < snd (slice_indices (nat v) (px0, px0 + (gx1 - gx0))) \<and>
           fst (slice_indices (nat v) (py0, py0 + (gy1 - gy0)))
             < snd (slice_indices (nat v) (py0, py0 + (gy1 - gy0)))"
proof -
  obtain tp where tp: "fov_top s v = Inr tp"
    using assms(2) fov_top_Inr by blast
  note c = fov_top_contains [OF tp assms(3)]
  define W H tx ty where "W = shape0 (grid s)" and "H = shape1 (grid s)"
    and "tx = fst tp" and "ty = snd tp"
  have ox: "max tx 0 < min (tx + v) (int W)"
    using c assms(1) by (auto simp: in_grid_def width_def W_def tx_def)
  have oy: "max ty 0 < min (ty + v) (int H)"
    using c assms(1) by (auto simp: in_grid_def height_def H_def ty_def)
  define gx0 gx1 gy0 gy1 px0 py0 where "gx0 = max tx 0" and "gx1 = min (tx + v) (int W)"
    and "gy0 = max ty 0" and "gy1 = min (ty + v) (int H)"
    and "px0 = max 0 (- tx)" and "py0 = max 0 (- ty)"
  have ov: "fov_overlap s tp v = ((gx0, gx1), (gy0, gy1))"
    by (simp add: fov_overlap_def gx0_def gx1_def gy0_def gy1_def tx_def ty_def W_def H_def
        width_def height_def)
  have off: "fov_offset tp = (px0, py0)"
    by (simp add: fov_offset_def px0_def py0_def tx_def ty_def)
  have sr: "slice_indices (shape0 (grid s)) (gx0, gx1) = (nat gx0, nat gx1)"
    using axis_source [OF less_imp_le [OF ox]] unfolding gx0_def gx1_def W_def .
  have sc: "slice_indices (shape1 (grid s)) (gy0, gy1) = (nat gy0, nat gy1)"
    using axis_source [OF less_imp_le [OF oy]] unfolding gy0_def gy1_def H_def .
  have tr: "slice_indices (nat v) (px0, px0 + (gx1 - gx0))
      = (nat px0, nat (px0 + (gx1 - gx0)))"
    using axis_target [OF less_imp_le [OF ox]] unfolding px0_def gx0_def gx1_def .
  have tc: "slice_indices (nat v) (py0, py0 + (gy1 - gy0))
      = (nat py0, nat (py0 + (gy1 - gy0)))"
    using axis_target [OF less_imp_le [OF oy]] unfolding py0_def gy0_def gy1_def .
  have px: "0 < nat gx1 - nat gx0"
    using axis_positive [OF ox] unfolding gx0_def gx1_def .
  have py: "0 < nat gy1 - nat gy0"
    using axis_positive [OF oy] unfolding gy0_def gy1_def .
  have ex: "nat gx1 - nat gx0 = nat (px0 + (gx1 - gx0)) - nat px0"
    using axis_extent [OF less_imp_le [OF ox]] unfolding px0_def gx0_def gx1_def .
  have ey: "nat gy1 - nat gy0 = nat (py0 + (gy1 - gy0)) - nat py0"
    using axis_extent [OF less_imp_le [OF oy]] unfolding py0_def gy0_def gy1_def .
  show ?thesis
  proof (intro exI conjI)
    show "fov_top s v = Inr tp" by (rule tp)
    show "fst tp \<le> fst (agent_pos s)" "fst (agent_pos s) < fst tp + v"
      "snd tp \<le> snd (agent_pos s)" "snd (agent_pos s) < snd tp + v"
      by (rule c)+
    show "fov_overlap s tp v = ((gx0, gx1), (gy0, gy1))" by (rule ov)
    show "fov_offset tp = (px0, py0)" by (rule off)
    show "gx0 < gx1" using ox by (simp only: gx0_def gx1_def)
    show "gy0 < gy1" using oy by (simp only: gy0_def gy1_def)
    show "0 < shape0 (getitem_slice (grid s) (gx0, gx1) (gy0, gy1))"
      using px by (simp only: getitem_slice_shape(1) [OF sr sc])
    show "0 < shape1 (getitem_slice (grid s) (gx0, gx1) (gy0, gy1))"
      using py by (simp only: getitem_slice_shape(2) [OF sr sc])
    show "fst (slice_indices (nat v) (px0, px0 + (gx1 - gx0)))
             < snd (slice_indices (nat v) (px0, px0 + (gx1 - gx0)))"
      using px ex by (simp only: tr fst_conv snd_conv) arith
    show "fst (slice_indices (nat v) (py0, py0 + (gy1 - gy0)))
             < snd (slice_indices (nat v) (py0, py0 + (gy1 - gy0)))"
      using py ey by (simp only: tc fst_conv snd_conv) arith
  qed
qed

theorem fov_window_contains_agent_witness:
  "in_grid (example_state (0, 1) 0) (agent_pos (example_state (0, 1) 0)) \<and>
   agent_dir (example_state (0, 1) 0) \<in> {0, 1, 2, 3} \<and> (1::int) \<le> 5 \<and>
   (\<exists>tp gx0 gx1 gy0 gy1.
      fov_top (example_state (0, 1) 0) 5 = Inr tp \<and> tp = (0, -1) \<and>
      fov_overlap (example_state (0, 1) 0) tp 5 = ((gx0, gx1), (gy0, gy1)) \<and>
      gx0 < gx1 \<and> gy0 < gy1 \<and> (gx0, gx1) = (0, 3) \<and> (gy0, gy1) = (0, 3))"
proof -
  let ?s = "example_state (0, 1) 0"
  have h1: "in_grid ?s (agent_pos ?s)"
    by (simp add: in_grid_def example_state_def example_grid_def width_def height_def)
  have h2: "agent_dir ?s \<in> {0, 1, 2, 3}"
    by (simp add: example_state_def)
  have h3: "(1::int) \<le> 5"
    by simp
  obtain tp gx0 gx1 gy0 gy1 where t: "fov_top ?s 5 = Inr tp"
    and o: "fov_overlap ?s tp 5 = ((gx0, gx1), (gy0, gy1))"
    and l: "gx0 < gx1" "gy0 < gy1"
    using fov_window_contains_agent [OF h1 h2 h3] by blast
  have tp: "tp = (0, -1)"
    using t by (simp add: fov_top_def example_state_def)
  have "(gx0, gx1) = (0, 3)" "(gy0, gy1) = (0, 3)"
    using o unfolding tp
    by (simp_all add: fov_overlap_def example_state_def example_grid_def width_def height_def)
  then show ?thesis
    using h1 h2 h3 t tp o l by blast
qed

section \<open>Running get_field_of_view\<close>

text \<open>
  When the agent stands inside the grid and faces a valid direction, every view size
  from zero on makes the call return; and a call that returns has built the window,
  rotated it and marked the grid.
\<close>

lemma fov_top_overlap:
  assumes "fov_top s v = Inr tp" "in_grid s (agent_pos s)" "0 \<le> v"
  shows "max (fst tp) 0 \<le> min (fst tp + v) (width s)"
    "max (snd tp) 0 \<le> min (snd tp + v) (height s)"
  using assms by (auto simp: fov_top_def in_grid_def split: if_splits)

lemma fov_window_returns:
  assumes "in_grid s (agent_pos s)" "agent_dir s \<in> {0, 1, 2, 3}" "0 \<le> v"
  shows "\<exists>w. fov_window s v = Inr w"
proof -
  obtain tp where tp: "fov_top s v = Inr tp"
    using assms(2) fov_top_Inr by blast
  obtain f where f: "np_full v v (code wall) = Inr f"
    using assms(3) np_full_Inr [of v v "code wall"] by auto
  note fp = np_full_props [OF f]
  define W H tx ty where "W = shape0 (grid s)" and "H = shape1 (grid s)"
    and "tx = fst tp" and "ty = snd tp"
  have ox: "max tx 0 \<le> min (tx + v) (int W)"
    using fov_top_overlap(1) [OF tp assms(1,3)] by (simp only: tx_def W_def width_def)
  have oy: "max ty 0 \<le> min (ty + v) (int H)"
    using fov_top_overlap(2) [OF tp assms(1,3)] by (simp only: ty_def H_def height_def)
  define gx0 gx1 gy0 gy1 px0 py0 where "gx0 = max tx 0" and "gx1 = min (tx + v) (int W)"
    and "gy0 = max ty 0" and "gy1 = min (ty + v) (int H)"
    and "px0 = max 0 (- tx)" and "py0 = max 0 (- ty)"
  define src where "src = getitem_slice (grid s) (gx0, gx1) (gy0, gy1)"
  have win: "fov_window s v =
      setitem_slice f (px0, px0 + (gx1 - gx0)) (py0, py0 + (gy1 - gy0)) src"
    unfolding fov_window_unfold [OF tp f] src_def gx0_def gx1_def gy0_def gy1_def
      px0_def py0_def tx_def ty_def W_def H_def width_def height_def ..
  have sr: "slice_indices (shape0 (grid s)) (gx0, gx1) = (nat gx0, nat gx1)"
    using axis_source [OF ox] unfolding gx0_def gx1_def W_def .
  have sc: "slice_indices (shape1 (grid s)) (gy0, gy1) = (nat gy0, nat gy1)"
    using axis_source [OF oy] unfolding gy0_def gy1_def H_def .
  have tr: "slice_indices (shape0 f) (px0, px0 + (gx1 - gx0))
      = (nat px0, nat (px0 + (gx1 - gx0)))"
    using axis_target [OF ox] unfolding fp(1) px0_def gx0_def gx1_def .
  have tc: "slice_indices (shape1 f) (py0, py0 + (gy1 - gy0))
      = (nat py0, nat (py0 + (gy1 - gy0)))"
    using axis_target [OF oy] unfolding fp(2) py0_def gy0_def gy1_def .
  have e0: "shape0 src = nat (px0 + (gx1 - gx0)) - nat px0"
    unfolding src_def getitem_slice_shape(1) [OF sr sc]
    using axis_extent [OF ox] unfolding px0_def gx0_def gx1_def .
  have e1: "shape1 src = nat (py0 + (gy1 - gy0)) - nat py0"
    unfolding src_def getitem_slice_shape(2) [OF sr sc]
    using axis_extent [OF oy] unfolding py0_def gy0_def gy1_def .
  show ?thesis
    using setitem_slice_ok [OF tr tc e0 e1] unfolding win .
qed

lemma fov_window_Inr_dir:
  assumes "fov_window s v = Inr w"
  shows "agent_dir s \<in> {0, 1, 2, 3}"
proof -
  have "\<exists>tp. fov_top s v = Inr tp"
    using assms by (cases "fov_top s v") (simp_all add: fov_window_def)
  then show ?thesis
    by (simp only: fov_top_Inr)
qed

lemma py_index_in_range:
  assumes "0 \<le> i" "i < int n"
  shows "py_index n i = Inr (nat i)"
  using assms by (simp add: py_index_def)

lemma py_index_Inr:
  assumes "py_index n i = Inr k"
  shows "k < n" "k = nat (if i < 0 then i + int n else i)"
  using assms by (auto simp: py_index_def Let_def split: if_splits)

lemma setitem_mark_returns:
  assumes "0 < shape0 a" "0 < shape1 a"
  shows "setitem a (int (shape0 a) div 2, int (shape1 a) - 1) c =
    Inr (a\<lparr>cells := (cells a)[shape0 a div 2 :=
            (cells a ! (shape0 a div 2))[shape1 a - 1 := c]]\<rparr>)"
proof -
  have i: "py_index (shape0 a) (int (shape0 a) div 2) = Inr (shape0 a div 2)"
    using assms(1) py_index_in_range [of "int (shape0 a) div 2" "shape0 a"]
    by (simp add: zdiv_int)
  have j: "py_index (shape1 a) (int (shape1 a) - 1) = Inr (shape1 a - 1)"
    using assms(2) py_index_in_range [of "int (shape1 a) - 1" "shape1 a"]
    by (simp add: nat_diff_distrib)
  show ?thesis
    by (simp add: setitem_def i j)
qed

lemma setitem_mark_Inr:
  assumes "setitem a (int (shape0 a) div 2, int (shape1 a) - 1) c = Inr b"
  shows "0 < shape0 a" "0 < shape1 a"
  using assms
  by (auto simp: setitem_def py_index_def Let_def split: sum.splits if_splits)

lemma get_field_of_view_returns:
  assumes "in_grid s (agent_pos s)" "agent_dir s \<in> {0, 1, 2, 3}" "0 \<le> v"
  shows "\<exists>fov s'. get_field_of_view s v = Inr (fov, s')"
proof -
  obtain w where w: "fov_window s v = Inr w"
    using fov_window_returns [OF assms] by blast
  have "0 < shape0 (grid s)" "0 < shape1 (grid s)"
    using assms(1) by (auto simp: in_grid_def width_def height_def)
  from setitem_mark_returns [OF this]
  show ?thesis
    by (simp add: get_field_of_view_def w width_def height_def)
qed

lemma get_field_of_view_Inr:
  assumes "get_field_of_view s v = Inr (fov, s')"
  obtains w where "fov_window s v = Inr w"
    and "fov = rotate_loop (nat (agent_dir s + 1)) w"
    and "0 < shape0 (grid s)" "0 < shape1 (grid s)"
    and "s' = s\<lparr>grid := (grid s)\<lparr>cells := (cells (grid s))[shape0 (grid s) div 2 :=
            (cells (grid s) ! (shape0 (grid s) div 2))[shape1 (grid s) - 1 := code agent]]\<rparr>\<rparr>"
proof -
  obtain w where w: "fov_window s v = Inr w"
    using assms by (cases "fov_window s v") (simp_all add: get_field_of_view_def)
  obtain g where g: "setitem (grid s) (int (shape0 (grid s)) div 2, int (shape1 (grid s)) - 1)
      (code agent) = Inr g"
    using assms unfolding get_field_of_view_def w width_def height_def
    by (cases "setitem (grid s) (int (shape0 (grid s)) div 2, int (shape1 (grid s)) - 1)
      (code agent)") simp_all
  note pos = setitem_mark_Inr [OF g]
  have g': "g = (grid s)\<lparr>cells := (cells (grid s))[shape0 (grid s) div 2 :=
            (cells (grid s) ! (shape0 (grid s) div 2))[shape1 (grid s) - 1 := code agent]]\<rparr>"
    using g unfolding setitem_mark_returns [OF pos] by simp
  have "fov = rotate_loop (nat (agent_dir s + 1)) w" "s' = s\<lparr>grid := g\<rparr>"
    using assms unfolding get_field_of_view_def w width_def height_def g by simp_all
  then show ?thesis
    using that [OF w _ pos] g' by blast
qed

lemma rotate_loop_funpow: "rotate_loop n a = (rotate_left ^^ n) a"
  by (induction n arbitrary: a) (simp_all add: funpow_swap1)

section \<open>The rotation of the window\<close>

lemma rotate_left_not_rot90:
  "wf_array quarter_example \<and> shape0 quarter_example = shape1 quarter_example \<and>
   rotate_left quarter_example = \<lparr>shape0 = 2, shape1 = 2, cells = [[10, 1], [7, 5]]\<rparr> \<and>
   rot90 quarter_example = \<lparr>shape0 = 2, shape1 = 2, cells = [[5, 7], [1, 10]]\<rparr>"
  by code_simp

text \<open>
  Claim C3. Whenever \<open>get_field_of_view\<close> returns, the direction \<open>d\<close> is one of
  the four, and the returned array is the window of steps 2 to 4 with the composite
  quarter-turn \<open>rotate_left\<close> (transpose, rotate by 90 degrees counter-clockwise,
  transpose again) applied exactly \<open>d + 1\<close> times. The call does return for every
  agent inside the grid, valid direction and view size from zero on, odd or even. The
  composite quarter-turn differs from the plain rotation \<open>rot90\<close> on some square
  array.
\<close>

theorem get_field_of_view_rotation:
  "(\<forall>fov s'. get_field_of_view s v = Inr (fov, s') \<longrightarrow>
       agent_dir s \<in> {0, 1, 2, 3} \<and>
       (\<exists>w. fov_window s v = Inr w \<and> fov = (rotate_left ^^ nat (agent_dir s + 1)) w)) \<and>
   (in_grid s (agent_pos s) \<and> agent_dir s \<in> {0, 1, 2, 3} \<and> 0 \<le> v \<longrightarrow>
       (\<exists>fov s'. get_field_of_view s v = Inr (fov, s'))) \<and>
   (\<exists>a. wf_array a \<and> shape0 a = shape1 a \<and> rotate_left a \<noteq> rot90 a)"
proof (intro conjI allI impI)
  fix fov s'
  assume r: "get_field_of_view s v = Inr (fov, s')"
  from r obtain w where w: "fov_window s v = Inr w"
    and f: "fov = rotate_loop (nat (agent_dir s + 1)) w"
    by (rule get_field_of_view_Inr)
  show "agent_dir s \<in> {0, 1, 2, 3}"
    by (rule fov_window_Inr_dir [OF w])
  show "\<exists>w. fov_window s v = Inr w \<and> fov = (rotate_left ^^ nat (agent_dir s + 1)) w"
    using w f by (simp add: rotate_loop_funpow)
next
  assume "in_grid s (agent_pos s) \<and> agent_dir s \<in> {0, 1, 2, 3} \<and> 0 \<le> v"
  then show "\<exists>fov s'. get_field_of_view s v = Inr (fov, s')"
    using get_field_of_view_returns by blast
next
  have "rotate_left quarter_example \<noteq> rot90 quarter_example"
    using rotate_left_not_rot90 by simp
  then show "\<exists>a. wf_array a \<and> shape0 a = shape1 a \<and> rotate_left a \<noteq> rot90 a"
    using rotate_left_not_rot90 by blast
qed

theorem get_field_of_view_rotation_witness:
  "in_grid (example_state (1, 1) 1) (agent_pos (example_state (1, 1) 1)) \<and>
   agent_dir (example_state (1, 1) 1) \<in> {0, 1, 2, 3} \<and> (0::int) \<le> 3 \<and>
   (\<exists>fov s' w. get_field_of_view (example_state (1, 1) 1) 3 = Inr (fov, s') \<and>
      fov_window (example_state (1, 1) 1) 3 = Inr w \<and>
      fov = rotate_left (rotate_left w) \<and>
      w = \<lparr>shape0 = 3, shape1 = 3, cells = [[5, 9, 2], [7, 8, 2], [4, 6, 2]]\<rparr> \<and>
      fov = \<lparr>shape0 = 3, shape1 = 3, cells = [[2, 6, 4], [2, 8, 7], [2, 9, 5]]\<rparr>)"
proof -
  let ?s = "example_state (1, 1) 1"
  have h1: "in_grid ?s (agent_pos ?s)"
    by (simp add: in_grid_def example_state_def example_grid_def width_def height_def)
  have h2: "agent_dir ?s \<in> {0, 1, 2, 3}"
    by (simp add: example_state_def)
  have h3: "(0::int) \<le> 3"
    by simp
  note t = get_field_of_view_rotation [of ?s 3]
  obtain fov s' where r: "get_field_of_view ?s 3 = Inr (fov, s')"
    using t h1 h2 h3 by blast
  obtain w where w: "fov_window ?s 3 = Inr w"
    and f: "fov = (rotate_left ^^ nat (agent_dir ?s + 1)) w"
    using t r by blast
  have f2: "fov = rotate_left (rotate_left w)"
    using f by (simp add: example_state_def eval_nat_numeral)
  have wv: "fov_window ?s 3 = Inr \<lparr>shape0 = 3, shape1 = 3, cells = [[5, 9, 2], [7, 8, 2], [4, 6, 2]]\<rparr>"
    by code_simp
  have w': "w = \<lparr>shape0 = 3, shape1 = 3, cells = [[5, 9, 2], [7, 8, 2], [4, 6, 2]]\<rparr>"
    using w wv by simp
  have "rotate_left (rotate_left \<lparr>shape0 = 3, shape1 = 3, cells = [[5, 9, 2], [7, 8, 2], [4, 6, 2]]\<rparr>)
      = \<lparr>shape0 = 3, shape1 = 3, cells = [[2, 6, 4], [2, 8, 7], [2, 9, 5]]\<rparr>"
    by code_simp
  then have fv: "fov = \<lparr>shape0 = 3, shape1 = 3, cells = [[2, 6, 4], [2, 8, 7], [2, 9, 5]]\<rparr>"
    using f2 w' by simp
  show ?thesis
    by (intro conjI exI [of _ fov] exI [of _ s'] exI [of _ w])
      (rule h1 h2 h3 r w f2 w' fv)+
qed

section \<open>The mark left in the grid\<close>

lemma mark_cell:
  assumes "wf_array a" "i0 < shape0 a" "j0 < shape1 a"
    and b_def: "b = a\<lparr>cells := (cells a)[i0 := (cells a ! i0)[j0 := c]]\<rparr>"
  shows "wf_array b" "shape0 b = shape0 a" "shape1 b = shape1 a"
    "item b i0 j0 = c"
    "i < shape0 a \<Longrightarrow> j < shape1 a \<Longrightarrow> (i, j) \<noteq> (i0, j0) \<Longrightarrow> item b i j = item a i j"
proof -
  have len: "length (cells a) = shape0 a" "\<And>k. k < shape0 a \<Longrightarrow> length (cells a ! k) = shape1 a"
    using assms(1) by (simp_all add: wf_array_def list_all_length)
  show "wf_array b"
    using len assms(2,3) by (auto simp: wf_array_def list_all_length b_def nth_list_update)
  show "shape0 b = shape0 a" "shape1 b = shape1 a"
    by (simp_all add: b_def)
  show "item b i0 j0 = c"
    using len assms(2,3) by (simp add: item_def b_def)
  show "item b i j = item a i j" if "i < shape0 a" "j < shape1 a" "(i, j) \<noteq> (i0, j0)"
    using len that assms(2,3) by (auto simp: item_def b_def nth_list_update)
qed

text \<open>
  Claim C4. Whenever \<open>get_field_of_view\<close> returns on a state with a well-formed
  grid, the direction was valid, the grid is not empty, and in the state left behind
  the cell \<open>(width div 2, height - 1)\<close> holds the agent code while every other cell,
  the shape of the grid, the agent's position, its direction and what it carries are
  as they were at entry. The call returns for every agent inside the grid, valid
  direction and view size from zero on.
\<close>

theorem get_field_of_view_marks_agent:
  "(\<forall>fov s'. wf_array (grid s) \<and> get_field_of_view s v = Inr (fov, s') \<longrightarrow>
       agent_dir s \<in> {0, 1, 2, 3} \<and> 0 < shape0 (grid s) \<and> 0 < shape1 (grid s) \<and>
       wf_array (grid s') \<and>
       shape0 (grid s') = shape0 (grid s) \<and> shape1 (grid s') = shape1 (grid s) \<and>
       item (grid s') (shape0 (grid s) div 2) (shape1 (grid s) - 1) = code agent \<and>
       (\<forall>i j. i < shape0 (grid s) \<longrightarrow> j < shape1 (grid s) \<longrightarrow>
            (i, j) \<noteq> (shape0 (grid s) div 2, shape1 (grid s) - 1) \<longrightarrow>
            item (grid s') i j = item (grid s) i j) \<and>
       agent_pos s' = agent_pos s \<and> agent_dir s' = agent_dir s \<and> carrying s' = carrying s) \<and>
   (in_grid s (agent_pos s) \<and> agent_dir s \<in> {0, 1, 2, 3} \<and> 0 \<le> v \<longrightarrow>
       (\<exists>fov s'. get_field_of_view s v = Inr (fov, s')))"
proof (intro conjI allI impI)
  assume "in_grid s (agent_pos s) \<and> agent_dir s \<in> {0, 1, 2, 3} \<and> 0 \<le> v"
  then show "\<exists>fov s'. get_field_of_view s v = Inr (fov, s')"
    using get_field_of_view_returns by blast
next
  fix fov s'
  assume a: "wf_array (grid s) \<and> get_field_of_view s v = Inr (fov, s')"
  then have wf: "wf_array (grid s)" and r: "get_field_of_view s v = Inr (fov, s')"
    by simp_all
  from r obtain w where w: "fov_window s v = Inr w"
    and W: "0 < shape0 (grid s)" and H: "0 < shape1 (grid s)"
    and s': "s' = s\<lparr>grid := (grid s)\<lparr>cells := (cells (grid s))[shape0 (grid s) div 2 :=
            (cells (grid s) ! (shape0 (grid s) div 2))[shape1 (grid s) - 1 := code agent]]\<rparr>\<rparr>"
    by (rule get_field_of_view_Inr)
  have i0: "shape0 (grid s) div 2 < shape0 (grid s)" and j0: "shape1 (grid s) - 1 < shape1 (grid s)"
    using W H by simp_all
  have g: "grid s' = (grid s)\<lparr>cells := (cells (grid s))[shape0 (grid s) div 2 :=
            (cells (grid s) ! (shape0 (grid s) div 2))[shape1 (grid s) - 1 := code agent]]\<rparr>"
    by (simp add: s')
  note m = mark_cell [OF wf i0 j0 g]
  show "agent_dir s \<in> {0, 1, 2, 3}"
    by (rule fov_window_Inr_dir [OF w])
  show "0 < shape0 (grid s)" "0 < shape1 (grid s)"
    by (rule W, rule H)
  show "wf_array (grid s')" by (rule m(1))
  show "shape0 (grid s') = shape0 (grid s)" by (rule m(2))
  show "shape1 (grid s') = shape1 (grid s)" by (rule m(3))
  show "item (grid s') (shape0 (grid s) div 2) (shape1 (grid s) - 1) = code agent"
    by (rule m(4))
  show "agent_pos s' = agent_pos s" "agent_dir s' = agent_dir s" "carrying s' = carrying s"
    by (simp_all add: s')
  fix i j
  assume "i < shape0 (grid s)" "j < shape1 (grid s)"
    "(i, j) \<noteq> (shape0 (grid s) div 2, shape1 (grid s) - 1)"
  then show "item (grid s') i j = item (grid s) i j"
    by (rule m(5))
qed

theorem get_field_of_view_marks_agent_witness:
  "wf_array (grid (example_state (1, 1) 1)) \<and>
   in_grid (example_state (1, 1) 1) (agent_pos (example_state (1, 1) 1)) \<and>
   agent_dir (example_state (1, 1) 1) \<in> {0, 1, 2, 3} \<and> (0::int) \<le> 3 \<and>
   (\<exists>fov s'. get_field_of_view (example_state (1, 1) 1) 3 = Inr (fov, s') \<and>
      item (grid (example_state (1, 1) 1)) 1 2 = 8 \<and>
      item (grid s') 1 2 = 12 \<and>
      item (grid s') 0 2 = 9 \<and>
      agent_pos s' = (1, 1) \<and> agent_dir s' = 1 \<and> carrying s' = None)"
proof -
  let ?s = "example_state (1, 1) 1"
  have h0: "wf_array (grid ?s)"
    by (simp add: wf_array_def example_state_def example_grid_def)
  have h1: "in_grid ?s (agent_pos ?s)"
    by (simp add: in_grid_def example_state_def example_grid_def width_def height_def)
  have h2: "agent_dir ?s \<in> {0, 1, 2, 3}"
    by (simp add: example_state_def)
  have h3: "(0::int) \<le> 3"
    by simp
  have sh: "shape0 (grid ?s) = 3" "shape1 (grid ?s) = 3"
    by (simp_all add: example_state_def example_grid_def)
  note t = get_field_of_view_marks_agent [of ?s 3]
  obtain fov s' where r: "get_field_of_view ?s 3 = Inr (fov, s')"
    using t h1 h2 h3 by blast
  have p: "item (grid s') (shape0 (grid ?s) div 2) (shape1 (grid ?s) - 1) = code agent"
      "\<And>i j. i < shape0 (grid ?s) \<Longrightarrow> j < shape1 (grid ?s) \<Longrightarrow>
            (i, j) \<noteq> (shape0 (grid ?s) div 2, shape1 (grid ?s) - 1) \<Longrightarrow>
            item (grid s') i j = item (grid ?s) i j"
      "agent_pos s' = agent_pos ?s" "agent_dir s' = agent_dir ?s" "carrying s' = carrying ?s"
    using t h0 r by blast+
  have c0: "item (grid ?s) 1 2 = 8"
    by (simp add: example_state_def example_grid_def item_def)
  have c1: "item (grid s') 1 2 = 12"
    using p(1) unfolding sh by simp
  have c2: "item (grid s') 0 2 = 9"
    using p(2) [of 0 2] unfolding sh
    by (simp add: example_state_def example_grid_def item_def)
  have c3: "agent_pos s' = (1, 1)" "agent_dir s' = 1" "carrying s' = None"
    using p(3,4,5) by (simp_all add: example_state_def)
  show ?thesis
    by (intro conjI exI [of _ fov] exI [of _ s']) (rule h0 h1 h2 h3 r c0 c1 c2 c3)+
qed

section \<open>Invalid directions\<close>

text \<open>
  \<open>get_field_of_view\<close> raises \<open>AssertionError\<close> exactly for the directions outside
  \<open>{0, 1, 2, 3}\<close>. \<open>front_pos\<close> has no check of its own: it indexes the table of
  vectors, so it raises \<open>IndexError\<close> from 4 on and below -4, and for -4 to -1 the
  index counts from the end of the table and a vector is returned.
\<close>

lemma get_field_of_view_invalid_direction:
  assumes "agent_dir s \<notin> {0, 1, 2, 3}"
  shows "get_field_of_view s v = Inl AssertionError"
  using assms by (simp add: get_field_of_view_def fov_window_def fov_top_def)

lemma fov_window_no_assertion:
  assumes "agent_dir s \<in> {0, 1, 2, 3}"
  shows "fov_window s v \<noteq> Inl AssertionError"
proof -
  obtain tp where tp: "fov_top s v = Inr tp"
    using assms fov_top_Inr by blast
  show ?thesis
    by (auto simp: fov_window_def tp np_full_def setitem_slice_def Let_def
        split: prod.splits if_splits)
qed

lemma setitem_no_assertion: "setitem a ij c \<noteq> Inl AssertionError"
  by (auto simp: setitem_def py_index_def Let_def split: sum.splits if_splits)

lemma get_field_of_view_valid_direction:
  assumes "agent_dir s \<in> {0, 1, 2, 3}"
  shows "get_field_of_view s v \<noteq> Inl AssertionError"
  using fov_window_no_assertion [OF assms, of v]
    setitem_no_assertion [of "grid s" "(width s div 2, height s - 1)" "code agent"]
  by (auto simp: get_field_of_view_def split: sum.splits)

lemma front_pos_out_of_range:
  assumes "4 \<le> agent_dir s \<or> agent_dir s < - 4"
  shows "front_pos s = Inl IndexError"
  using assms by (auto simp: front_pos_def py_index_def DIR_TO_VEC_def)

lemma front_pos_negative:
  assumes "- 4 \<le> agent_dir s" "agent_dir s < 0"
  shows "front_pos s =
    Inr (wrap64 (fst (agent_pos s) + fst (DIR_TO_VEC ! nat (agent_dir s + 4))),
         wrap64 (snd (agent_pos s) + snd (DIR_TO_VEC ! nat (agent_dir s + 4))))"
  using assms by (simp add: front_pos_def py_index_def DIR_TO_VEC_def)


text \<open>
  Claim C5 fails for \<open>front_pos\<close>. The direction -1 is outside \<open>{0, 1, 2, 3}\<close>, yet
  \<open>front_pos\<close> returns the cell above the agent, the result for direction 3, where
  \<open>get_field_of_view\<close> raises on the same state. Direction 7 raises in both.
\<close>

theorem front_pos_negative_direction:
  "agent_dir (example_state (1, 1) (- 1)) \<notin> {0, 1, 2, 3} \<and>
   front_pos (example_state (1, 1) (- 1)) = Inr (1, 0) \<and>
   front_pos (example_state (1, 1) 3) = Inr (1, 0) \<and>
   front_pos (example_state (1, 1) 7) = Inl IndexError \<and>
   get_field_of_view (example_state (1, 1) (- 1)) 3 = Inl AssertionError \<and>
   get_field_of_view (example_state (1, 1) 7) 3 = Inl AssertionError"
  by (simp add: example_state_def front_pos_def py_index_def DIR_TO_VEC_def wrap64_def
      get_field_of_view_def fov_window_def fov_top_def)


section \<open>A window that misses the grid\<close>

text \<open>
  When the window misses the grid, the region of the window that the copy selects is
  empty: either the window lies before the grid along an axis and the target slice is
  empty, or it lies beyond it, the source slice is empty, and numpy accepts the copy
  only into an empty target. So every call that returns on such a window returns it
  all wall.
\<close>

lemma slice_bound_le: "slice_bound n i \<le> n"
  by (auto simp: slice_bound_def max_def min_def)

lemma getitem_slice_shapes:
  "shape0 (getitem_slice a rs cs)
     = snd (slice_indices (shape0 a) rs) - fst (slice_indices (shape0 a) rs)"
  "shape1 (getitem_slice a rs cs)
     = snd (slice_indices (shape1 a) cs) - fst (slice_indices (shape1 a) cs)"
  by (simp_all add: getitem_slice_def split: prod.splits)

lemma axis_right_empty:
  assumes "int n \<le> t"
  shows "snd (slice_indices n (max t 0, min (t + v) (int n)))
         - fst (slice_indices n (max t 0, min (t + v) (int n))) = 0"
proof -
  have "slice_bound n (max t 0) = n"
    using assms by (simp add: slice_bound_def)
  then show ?thesis
    using slice_bound_le [of n "min (t + v) (int n)"] by (simp add: slice_indices_def)
qed

lemma axis_left_empty:
  assumes "t + v \<le> 0" "0 \<le> v"
  shows "snd (slice_indices (nat v) (max 0 (- t), max 0 (- t) + (min (t + v) (int n) - max t 0)))
         \<le> fst (slice_indices (nat v) (max 0 (- t), max 0 (- t) + (min (t + v) (int n) - max t 0)))"
proof -
  have "slice_bound (nat v) (max 0 (- t)) = nat v"
    using assms by (simp add: slice_bound_def)
  then show ?thesis
    using slice_bound_le [of "nat v"] by (simp add: slice_indices_def)
qed

lemma setitem_slice_empty_region:
  assumes "setitem_slice a rs cs src = Inr b"
    and "snd (slice_indices (shape0 a) rs) \<le> fst (slice_indices (shape0 a) rs)
       \<or> snd (slice_indices (shape1 a) cs) \<le> fst (slice_indices (shape1 a) cs)"
  shows "b = a\<lparr>cells := map (\<lambda>i. map (\<lambda>j. item a i j) [0..<shape1 a]) [0..<shape0 a]\<rparr>"
  using assms
  by (auto simp: setitem_slice_def split: prod.splits if_splits)

lemma setitem_slice_empty_source:
  assumes "setitem_slice a rs cs src = Inr b" "shape0 src = 0 \<or> shape1 src = 0"
  shows "snd (slice_indices (shape0 a) rs) \<le> fst (slice_indices (shape0 a) rs)
       \<or> snd (slice_indices (shape1 a) cs) \<le> fst (slice_indices (shape1 a) cs)"
  using assms
  by (auto simp: setitem_slice_def split: prod.splits if_splits)

lemma np_full_cells:
  assumes "np_full n m c = Inr a"
  shows "a\<lparr>cells := map (\<lambda>i. map (\<lambda>j. item a i j) [0..<shape1 a]) [0..<shape0 a]\<rparr> = a"
proof -
  have a: "a = \<lparr>shape0 = nat n, shape1 = nat m, cells = replicate (nat n) (replicate (nat m) c)\<rparr>"
    using assms by (simp add: np_full_def split: if_splits)
  have "map (\<lambda>i. map (\<lambda>j. item a i j) [0..<nat m]) [0..<nat n] = replicate (nat n) (replicate (nat m) c)"
    by (auto simp: a item_def intro!: nth_equalityI)
  then show ?thesis
    by (simp add: a)
qed

lemma fov_window_off_grid_wall:
  assumes tp: "fov_top s v = Inr tp" and w: "fov_window s v = Inr w"
    and off: "fst tp + v \<le> 0 \<or> width s \<le> fst tp \<or> snd tp + v \<le> 0 \<or> height s \<le> snd tp"
  shows "w = wall_window v"
proof -
  obtain f where f: "np_full v v (code wall) = Inr f"
    using w tp by (cases "np_full v v (code wall)") (simp_all add: fov_window_def)
  have v: "0 \<le> v"
    using f by (simp add: np_full_def split: if_splits)
  note fp = np_full_props [OF f]
  define rs where "rs = (max 0 (- fst tp), max 0 (- fst tp) + (min (fst tp + v) (width s) - max (fst tp) 0))"
  define cs where "cs = (max 0 (- snd tp), max 0 (- snd tp) + (min (snd tp + v) (height s) - max (snd tp) 0))"
  define src where "src = getitem_slice (grid s) (max (fst tp) 0, min (fst tp + v) (width s))
          (max (snd tp) 0, min (snd tp + v) (height s))"
  have win: "setitem_slice f rs cs src = Inr w"
    using w unfolding fov_window_unfold [OF tp f] rs_def cs_def src_def .
  have empty: "snd (slice_indices (shape0 f) rs) \<le> fst (slice_indices (shape0 f) rs)
       \<or> snd (slice_indices (shape1 f) cs) \<le> fst (slice_indices (shape1 f) cs)"
  proof -
    consider "fst tp + v \<le> 0" | "width s \<le> fst tp" | "snd tp + v \<le> 0" | "height s \<le> snd tp"
      using off by blast
    then show ?thesis
    proof cases
      case 1
      show ?thesis
        using axis_left_empty [OF 1 v, of "shape0 (grid s)"]
        by (simp add: fp(1) rs_def width_def)
    next
      case 2
      have "int (shape0 (grid s)) \<le> fst tp"
        using 2 by (simp only: width_def)
      then have "shape0 src = 0"
        unfolding src_def getitem_slice_shapes(1) width_def by (rule axis_right_empty)
      then show ?thesis
        using setitem_slice_empty_source [OF win] by blast
    next
      case 3
      show ?thesis
        using axis_left_empty [OF 3 v, of "shape1 (grid s)"]
        by (simp add: fp(2) cs_def height_def)
    next
      case 4
      have "int (shape1 (grid s)) \<le> snd tp"
        using 4 by (simp only: height_def)
      then have "shape1 src = 0"
        unfolding src_def getitem_slice_shapes(2) height_def by (rule axis_right_empty)
      then show ?thesis
        using setitem_slice_empty_source [OF win] by blast
    qed
  qed
  have "w = f"
    using setitem_slice_empty_region [OF win empty] np_full_cells [OF f] by simp
  then show ?thesis
    using f v by (simp add: np_full_def wall_window_def)
qed

lemma nd_T_wall_window: "nd_T (wall_window v) = wall_window v"
  by (auto simp: nd_T_def wall_window_def item_def intro!: nth_equalityI)

lemma flip1_wall_window: "flip1 (wall_window v) = wall_window v"
  by (simp add: flip1_def wall_window_def)

lemma rotate_left_wall_window: "rotate_left (wall_window v) = wall_window v"
  by (simp add: rotate_left_def rot90_def nd_T_wall_window flip1_wall_window)

lemma rotate_loop_wall_window: "rotate_loop n (wall_window v) = wall_window v"
  by (induction n) (simp_all add: rotate_left_wall_window)

lemma get_field_of_view_off_grid_wall:
  assumes "fov_top s v = Inr tp" "get_field_of_view s v = Inr (fov, s')"
    and "fst tp + v \<le> 0 \<or> width s \<le> fst tp \<or> snd tp + v \<le> 0 \<or> height s \<le> snd tp"
  shows "fov = wall_window v"
proof -
  from assms(2) obtain w where w: "fov_window s v = Inr w"
    and f: "fov = rotate_loop (nat (agent_dir s + 1)) w"
    by (rule get_field_of_view_Inr)
  show ?thesis
    unfolding f fov_window_off_grid_wall [OF assms(1) w assms(3)]
    by (rule rotate_loop_wall_window)
qed

lemma get_field_of_view_window_beside_grid:
  "fov_top (example_state (3, 1) 0) 3 = Inr (3, 0) \<and>
   get_field_of_view (example_state (3, 1) 0) 3 =
      Inr (\<lparr>shape0 = 3, shape1 = 3, cells = [[2, 2, 2], [2, 2, 2], [2, 2, 2]]\<rparr>,
           \<lparr>grid = \<lparr>shape0 = 3, shape1 = 3, cells = [[1, 5, 9], [10, 7, 12], [11, 4, 6]]\<rparr>,
            agent_pos = (3, 1), agent_dir = 0, carrying = None\<rparr>)"
  by code_simp

text \<open>
  Claim C8 fails. On the three-by-three grid, an agent at \<open>(5, 1)\<close> facing right
  with view size 3 has the window \<open>[5, 8) \<times> [0, 3)\<close>, which misses the grid. The
  overlap has the negative extent \<open>3 - 5\<close>, the target slice \<open>fov[0:-2, 0:3]\<close> then
  has one row while the source slice \<open>grid[5:3, 0:3]\<close> has none, and the copy raises
  \<open>ValueError\<close> instead of leaving the window all wall. (For the agent at \<open>(3, 1)\<close>
  the extent is zero and the window is returned all wall.)
\<close>

theorem get_field_of_view_window_off_grid:
  "agent_dir (example_state (5, 1) 0) \<in> {0, 1, 2, 3} \<and>
   fov_top (example_state (5, 1) 0) 3 = Inr (5, 0) \<and>
   width (example_state (5, 1) 0) = 3 \<and> height (example_state (5, 1) 0) = 3 \<and>
   fov_window (example_state (5, 1) 0) 3 = Inl ValueError \<and>
   get_field_of_view (example_state (5, 1) 0) 3 = Inl ValueError"
  by code_simp


section \<open>The returned window and the mark\<close>

lemma read_view_T: "read_view h (view_T x) = nd_T (read_view h x)"
  by (simp add: read_view_def view_T_def)

lemma read_view_flip1: "read_view h (view_flip1 x) = flip1 (read_view h x)"
  by (simp add: read_view_def view_flip1_def)

lemma read_view_rotate_left: "read_view h (rotate_left_view x) = rotate_left (read_view h x)"
  by (simp add: rotate_left_view_def view_rot90_def rotate_left_def rot90_def
      read_view_T read_view_flip1)

lemma base_rotate_left_view: "base (rotate_left_view x) = base x"
  by (simp add: rotate_left_view_def view_rot90_def view_T_def view_flip1_def)

lemma read_view_rotate_loop:
  "read_view h (rotate_loop_view n x) = rotate_loop n (read_view h x)"
  by (induction n arbitrary: x) (simp_all add: read_view_rotate_left)

lemma base_rotate_loop_view: "base (rotate_loop_view n x) = base x"
  by (induction n arbitrary: x) (simp_all add: base_rotate_left_view)

lemma read_view_fresh: "read_view h \<lparr>base = a, path = []\<rparr> = h ! a"
  by (simp add: read_view_def)

lemma state_of_grid:
  "grid (state_of h self) = h ! grid_ref self"
  "agent_pos (state_of h self) = obj_agent_pos self"
  "agent_dir (state_of h self) = obj_agent_dir self"
  "carrying (state_of h self) = obj_carrying self"
  by (simp_all add: state_of_def)

lemma state_of_cong:
  assumes "h' ! grid_ref self = h ! grid_ref self"
  shows "state_of h' self = state_of h self"
  using assms by (simp add: state_of_def)

lemma fov_window_state_of:
  "fov_window (state_of h self) v =
     (case fov_top (state_of h self) v of
        Inl e \<Rightarrow> Inl e
      | Inr tp \<Rightarrow>
          (case np_full v v (code wall) of
             Inl e \<Rightarrow> Inl e
           | Inr full \<Rightarrow>
               (let ((gx0, gx1), (gy0, gy1)) = fov_overlap (state_of h self) tp v;
                    (px0, py0) = fov_offset tp
                in setitem_slice full (px0, px0 + (gx1 - gx0)) (py0, py0 + (gy1 - gy0))
                     (getitem_slice (h ! grid_ref self) (gx0, gx1) (gy0, gy1)))))"
  unfolding fov_window_def state_of_grid(1) by (rule refl)

text \<open>
  A mark left by an earlier call is part of the grid at entry and does show: on the
  state that the call of the example below leaves behind, the same call returns a
  window with the agent code in its middle.
\<close>

lemma get_field_of_view_second_call:
  "get_field_of_view
     \<lparr>grid = \<lparr>shape0 = 3, shape1 = 3, cells = [[1, 5, 9], [10, 7, 12], [11, 4, 6]]\<rparr>,
      agent_pos = (1, 1), agent_dir = 1, carrying = None\<rparr> 3 =
   Inr (\<lparr>shape0 = 3, shape1 = 3, cells = [[2, 6, 4], [2, 12, 7], [2, 9, 5]]\<rparr>,
        \<lparr>grid = \<lparr>shape0 = 3, shape1 = 3, cells = [[1, 5, 9], [10, 7, 12], [11, 4, 6]]\<rparr>,
         agent_pos = (1, 1), agent_dir = 1, carrying = None\<rparr>)"
  by code_simp

text \<open>
  Claim C10. On the store, where the returned window is a view that is read only
  after the grid has been written, the call fails exactly as the state-passing model
  does, and when it returns, the view is based on an array other than the grid and
  reads, in the store left behind, as the window that the state-passing model
  computes from the grid as it was at entry; the grid in the store left behind is
  the marked one. So the write never shows in the window of the same call.
\<close>

theorem get_field_of_view_heap_window:
  assumes "grid_ref self < length h"
  shows "(\<forall>e. get_field_of_view (state_of h self) v = Inl e \<longrightarrow>
            get_field_of_view_heap h self v = Inl e) \<and>
         (\<forall>fov s'. get_field_of_view (state_of h self) v = Inr (fov, s') \<longrightarrow>
            (\<exists>x h'. get_field_of_view_heap h self v = Inr (x, h') \<and>
               base x \<noteq> grid_ref self \<and>
               read_view h' x = fov \<and> state_of h' self = s'))"
proof (cases "fov_top (state_of h self) v")
  case (Inl e)
  then show ?thesis
    by (simp add: get_field_of_view_def fov_window_def get_field_of_view_heap_def)
next
  case tp: (Inr tp)
  show ?thesis
  proof (cases "np_full v v (code wall)")
    case (Inl e)
    show ?thesis
      unfolding get_field_of_view_def fov_window_def get_field_of_view_heap_def tp Inl
      by simp
  next
    case full: (Inr full)
    define g where "g = grid_ref self"
    define a where "a = length h"
    define h1 where "h1 = h @ [full]"
    have ga: "g < a" "g \<noteq> a"
      using assms by (simp_all add: g_def a_def)
    have h1g: "h1 ! g = h ! g" and h1a: "h1 ! a = full" and l1: "length h1 = Suc a"
      using ga by (simp_all add: h1_def a_def nth_append)
    have st1: "state_of h1 self = state_of h self"
      using h1g by (simp add: state_of_def g_def)
    obtain gx0 gx1 gy0 gy1 where ov: "fov_overlap (state_of h self) tp v = ((gx0, gx1), (gy0, gy1))"
      by (metis surj_pair)
    obtain px0 py0 where off: "fov_offset tp = (px0, py0)"
      by (metis surj_pair)
    define copy where "copy = setitem_slice full (px0, px0 + (gx1 - gx0)) (py0, py0 + (gy1 - gy0))
                     (getitem_slice (h ! g) (gx0, gx1) (gy0, gy1))"
    have win: "fov_window (state_of h self) v = copy"
      unfolding fov_window_state_of tp full by (simp add: ov off copy_def g_def)
    have heap1: "get_field_of_view_heap h self v =
      (case copy of
         Inl e \<Rightarrow> Inl e
       | Inr written \<Rightarrow>
           (case setitem (h1[a := written] ! g)
                   (width (state_of (h1[a := written]) self) div 2,
                    height (state_of (h1[a := written]) self) - 1) (code agent) of
              Inl e \<Rightarrow> Inl e
            | Inr g' \<Rightarrow> Inr (rotate_loop_view (nat (obj_agent_dir self + 1))
                                \<lparr>base = a, path = []\<rparr>, h1[a := written, g := g'])))"
      unfolding get_field_of_view_heap_def tp full
      by (simp add: Let_def st1 [unfolded h1_def] ov off
          h1g [unfolded h1_def g_def] h1a [unfolded h1_def a_def] copy_def
          g_def a_def h1_def split: sum.splits)
    show ?thesis
    proof (cases copy)
      case (Inl e)
      then show ?thesis
        by (simp add: get_field_of_view_def win heap1)
    next
      case written: (Inr written)
      define h2 where "h2 = h1[a := written]"
      have h2g: "h2 ! g = h ! g" and h2a: "h2 ! a = written"
        using ga h1g l1 by (simp_all add: h2_def)
      have st2: "state_of h2 self = state_of h self"
        using h2g by (simp add: state_of_def g_def)
      define mark where "mark = setitem (h ! g)
          (width (state_of h self) div 2, height (state_of h self) - 1) (code agent)"
      have pure: "get_field_of_view (state_of h self) v =
        (case mark of
           Inl e \<Rightarrow> Inl e
         | Inr g' \<Rightarrow> Inr (rotate_loop (nat (obj_agent_dir self + 1)) written,
                          (state_of h self)\<lparr>grid := g'\<rparr>))"
        by (simp add: get_field_of_view_def win written mark_def state_of_grid g_def
            split: sum.splits)
      have heap2: "get_field_of_view_heap h self v =
        (case mark of
           Inl e \<Rightarrow> Inl e
         | Inr g' \<Rightarrow> Inr (rotate_loop_view (nat (obj_agent_dir self + 1))
                                \<lparr>base = a, path = []\<rparr>, h2[g := g']))"
        unfolding heap1 written sum.case h2_def [symmetric]
        by (simp add: h2g st2 mark_def split: sum.splits)
      show ?thesis
      proof (cases mark)
        case (Inl e)
        then show ?thesis
          by (simp add: pure heap2)
      next
        case g': (Inr g')
        define x where "x = rotate_loop_view (nat (obj_agent_dir self + 1)) \<lparr>base = a, path = []\<rparr>"
        define h3 where "h3 = h2[g := g']"
        have l2: "length h2 = Suc a"
          using l1 by (simp add: h2_def)
        have h3a: "h3 ! a = written" and h3g: "h3 ! g = g'"
          using ga h2a l2 by (simp_all add: h3_def)
        have bx: "base x = a"
          by (simp add: x_def base_rotate_loop_view)
        have rd: "read_view h3 x = rotate_loop (nat (obj_agent_dir self + 1)) written"
          by (simp add: x_def read_view_rotate_loop read_view_fresh h3a)
        have st3: "state_of h3 self = (state_of h self)\<lparr>grid := g'\<rparr>"
          using h3g by (simp add: state_of_def g_def)
        have res: "get_field_of_view_heap h self v = Inr (x, h3)"
          by (simp add: heap2 g' x_def h3_def)
        have pu: "get_field_of_view (state_of h self) v =
            Inr (rotate_loop (nat (obj_agent_dir self + 1)) written,
                 (state_of h self)\<lparr>grid := g'\<rparr>)"
          by (simp add: pure g')
        have ne: "base x \<noteq> grid_ref self"
          using ga(2) bx by (simp add: g_def)
        show ?thesis
          unfolding pu res using ne rd st3 by simp
      qed
    qed
  qed
qed

theorem get_field_of_view_heap_window_witness:
  "grid_ref example_object < length [example_grid] \<and>
   (\<exists>x h'. get_field_of_view_heap [example_grid] example_object 3 = Inr (x, h') \<and>
      base x \<noteq> grid_ref example_object \<and>
      read_view h' x = \<lparr>shape0 = 3, shape1 = 3, cells = [[2, 6, 4], [2, 8, 7], [2, 9, 5]]\<rparr> \<and>
      h' ! grid_ref example_object =
        \<lparr>shape0 = 3, shape1 = 3, cells = [[1, 5, 9], [10, 7, 12], [11, 4, 6]]\<rparr>)"
proof -
  let ?fov = "\<lparr>shape0 = 3, shape1 = 3, cells = [[2, 6, 4], [2, 8, 7], [2, 9, 5]]\<rparr>"
  let ?g = "\<lparr>shape0 = 3, shape1 = 3, cells = [[1, 5, 9], [10, 7, 12], [11, 4, 6]]\<rparr>"
  let ?s' = "\<lparr>grid = ?g, agent_pos = (1, 1), agent_dir = 1, carrying = None\<rparr>"
  have h: "grid_ref example_object < length [example_grid]"
    by (simp add: example_object_def)
  have p: "get_field_of_view (state_of [example_grid] example_object) 3 = Inr (?fov, ?s')"
    by code_simp
  obtain x h' where r: "get_field_of_view_heap [example_grid] example_object 3 = Inr (x, h')"
    and b: "base x \<noteq> grid_ref example_object"
    and v: "read_view h' x = ?fov"
    and s: "state_of h' example_object = ?s'"
    using get_field_of_view_heap_window [OF h, of 3] p by blast
  have "grid (state_of h' example_object) = ?g"
    unfolding s by simp
  then have g: "h' ! grid_ref example_object = ?g"
    by (simp only: state_of_grid(1))
  show ?thesis
    by (intro conjI exI [of _ x] exI [of _ h']) (rule h r b v g)+
qed

end
